theory Spec2Isabelle
  imports Main "HOL-Library.Word"
begin

unbundle bit_operations_syntax

section \<open>Packet memory and the copy routines of chip/stm32/usb.c\<close>

text \<open>
  The USB packet memory is the array \<^verbatim>\<open>usb_uint __usb_ram_start[]\<close>: the header says that
  all reads and writes of it are 16 bits wide, so a cell is a 16-bit word. The array is
  declared without a bound, so it is a total function from the word index. Ordinary memory
  (where descriptors and byte buffers live) is a function from the byte address; a pointer
  into it is the address, and \<^verbatim>\<open>NULL\<close> is the address 0.
\<close>

type_synonym usb_uint = "16 word"
type_synonym uint8_t = "8 word"
type_synonym usb_ram_t = "nat \<Rightarrow> usb_uint"
type_synonym memory = "nat \<Rightarrow> uint8_t"

text \<open>
  \<^verbatim>\<open>for (i = 0; i < n / 2; i++, s += 2) *d++ = (s[1] << 8) | s[0];\<close>
  The first argument is the number of iterations left; the result is the packet memory
  with the final values of \<^verbatim>\<open>d\<close> and \<^verbatim>\<open>s\<close>.
\<close>

fun to_usbram_loop :: "nat \<Rightarrow> usb_ram_t \<Rightarrow> memory \<Rightarrow> nat \<Rightarrow> nat \<Rightarrow> usb_ram_t \<times> nat \<times> nat" where
  "to_usbram_loop 0 ram mem d s = (ram, d, s)"
| "to_usbram_loop (Suc k) ram mem d s =
     to_usbram_loop k (ram(d := push_bit 8 (ucast (mem (s + 1))) OR ucast (mem s))) mem (d + 1) (s + 2)"

text \<open>
  \<^verbatim>\<open>memcpy_to_usbram(dest, src, n)\<close>: \<open>dest\<close> is the byte offset in packet memory,
  \<open>src\<close> the address of the source bytes in \<open>mem\<close>. The result is the packet memory.
\<close>

definition memcpy_to_usbram :: "usb_ram_t \<Rightarrow> memory \<Rightarrow> nat \<Rightarrow> nat \<Rightarrow> nat \<Rightarrow> usb_ram_t" where
  "memcpy_to_usbram ram mem dest src n =
     (let unaligned = dest mod 2;
          d = dest div 2;
          s = src;
          (ram, n, s, d) =
            (if unaligned \<noteq> 0 \<and> n \<noteq> 0
             then (ram(d := (ram d AND NOT 0xff00) OR push_bit 8 (ucast (mem s))), n - 1, s + 1, d + 1)
             else (ram, n, s, d));
          (ram, d, s) = to_usbram_loop (n div 2) ram mem d s
      in if n mod 2 = 1 then ram(d := (ram d AND NOT 0x00ff) OR ucast (mem s)) else ram)"

text \<open>
  \<^verbatim>\<open>for (i = 0; i < n / 2; i++) { usb_uint value = *s++; *d++ = (value >> 0) & 0xff;
  *d++ = (value >> 8) & 0xff; }\<close>
\<close>

fun from_usbram_loop :: "nat \<Rightarrow> memory \<Rightarrow> usb_ram_t \<Rightarrow> nat \<Rightarrow> nat \<Rightarrow> memory \<times> nat \<times> nat" where
  "from_usbram_loop 0 mem ram d s = (mem, d, s)"
| "from_usbram_loop (Suc k) mem ram d s =
     (let val = ram s;
          mem = mem(d := ucast (drop_bit 0 val AND 0xff));
          mem = mem(d + 1 := ucast (drop_bit 8 val AND 0xff))
      in from_usbram_loop k mem ram (d + 2) (s + 1))"

text \<open>
  \<^verbatim>\<open>memcpy_from_usbram(dest, src, n)\<close>: \<open>dest\<close> is the address of the byte buffer in
  \<open>mem\<close>, \<open>src\<close> the byte offset in packet memory. The result is the memory written.
\<close>

definition memcpy_from_usbram :: "memory \<Rightarrow> usb_ram_t \<Rightarrow> nat \<Rightarrow> nat \<Rightarrow> nat \<Rightarrow> memory" where
  "memcpy_from_usbram mem ram dest src n =
     (let unaligned = src mod 2;
          s = src div 2;
          d = dest;
          (mem, n, s, d) =
            (if unaligned \<noteq> 0 \<and> n \<noteq> 0
             then (mem(d := ucast (drop_bit 8 (ram s))), n - 1, s + 1, d + 1)
             else (mem, n, s, d));
          (mem, d, s) = from_usbram_loop (n div 2) mem ram d s
      in if n mod 2 = 1 then mem(d := ucast (ram s)) else mem)"

text \<open>
  The byte of packet memory at a byte offset: the low half of the word at an even offset,
  the high half at an odd one (the order in which both copy routines lay bytes out).
\<close>

definition usbram_byte :: "usb_ram_t \<Rightarrow> nat \<Rightarrow> uint8_t" where
  "usbram_byte ram a = (if a mod 2 = 0 then ucast (ram (a div 2)) else ucast (drop_bit 8 (ram (a div 2))))"


section \<open>Constants and hardware registers\<close>

text \<open>
  Modelled from the spec: the constants of usb_descriptor.h, which is not among the sources.
  The spec names the USB 2.0 device framework; the values are the ones of its chapter 9
  (request codes, descriptor types, the fields of \<^verbatim>\<open>bmRequestType\<close>), the 64-byte maximum
  packet of a full-speed control endpoint (the spec's example: a 64-byte descriptor fills one
  packet; \<^verbatim>\<open>ep0_event\<close> programs \<^verbatim>\<open>USB_MAX_PACKET_SIZE/32-1\<close> blocks of 32 bytes) and the
  18-byte device descriptor that \<^verbatim>\<open>sizeof(dev_desc)\<close> measures.
\<close>

definition USB_MAX_PACKET_SIZE :: nat where "USB_MAX_PACKET_SIZE = 64"
definition USB_DT_DEVICE_SIZE :: nat where "USB_DT_DEVICE_SIZE = 18"

definition USB_DIR_OUT :: usb_uint where "USB_DIR_OUT = 0"
definition USB_DIR_IN :: usb_uint where "USB_DIR_IN = 0x80"
definition USB_TYPE_MASK :: usb_uint where "USB_TYPE_MASK = 0x60"
definition USB_TYPE_VENDOR :: usb_uint where "USB_TYPE_VENDOR = 0x40"
definition USB_RECIP_MASK :: usb_uint where "USB_RECIP_MASK = 0x1f"
definition USB_RECIP_INTERFACE :: usb_uint where "USB_RECIP_INTERFACE = 0x01"

definition USB_REQ_GET_STATUS :: usb_uint where "USB_REQ_GET_STATUS = 0x00"
definition USB_REQ_CLEAR_FEATURE :: usb_uint where "USB_REQ_CLEAR_FEATURE = 0x01"
definition USB_REQ_SET_FEATURE :: usb_uint where "USB_REQ_SET_FEATURE = 0x03"
definition USB_REQ_SET_ADDRESS :: usb_uint where "USB_REQ_SET_ADDRESS = 0x05"
definition USB_REQ_GET_DESCRIPTOR :: usb_uint where "USB_REQ_GET_DESCRIPTOR = 0x06"
definition USB_REQ_SET_CONFIGURATION :: usb_uint where "USB_REQ_SET_CONFIGURATION = 0x09"

definition USB_REQ_FEATURE_DEVICE_REMOTE_WAKEUP :: usb_uint where
  "USB_REQ_FEATURE_DEVICE_REMOTE_WAKEUP = 0x01"
definition USB_REQ_GET_STATUS_SELF_POWERED :: usb_uint where "USB_REQ_GET_STATUS_SELF_POWERED = 1"
definition USB_REQ_GET_STATUS_REMOTE_WAKEUP :: usb_uint where "USB_REQ_GET_STATUS_REMOTE_WAKEUP = 2"
definition WEBUSB_REQ_GET_URL :: usb_uint where "WEBUSB_REQ_GET_URL = 0x02"

definition USB_DT_DEVICE :: uint8_t where "USB_DT_DEVICE = 0x01"
definition USB_DT_CONFIGURATION :: uint8_t where "USB_DT_CONFIGURATION = 0x02"
definition USB_DT_STRING :: uint8_t where "USB_DT_STRING = 0x03"
definition USB_DT_DEVICE_QUALIFIER :: uint8_t where "USB_DT_DEVICE_QUALIFIER = 0x06"
definition USB_DT_BOS :: uint8_t where "USB_DT_BOS = 0x0f"

text \<open>\<^verbatim>\<open>#define USB_RESUME_TIMEOUT_MS 300\<close>\<close>

definition USB_RESUME_TIMEOUT_MS :: int where "USB_RESUME_TIMEOUT_MS = 300"

text \<open>The conversion of an \<^verbatim>\<open>int\<close> to \<^verbatim>\<open>size_t\<close> (32 bits) at a call of the copy routines.\<close>

definition size_t :: "int \<Rightarrow> nat" where
  "size_t x = nat (x mod 2 ^ 32)"

text \<open>
  Modelled from the spec: the endpoint register \<^verbatim>\<open>STM32_USB_EP(n)\<close>, the macro
  \<^verbatim>\<open>STM32_TOGGLE_EP(n, mask, val, flags)\<close> and its \<^verbatim>\<open>EP_*\<close> constants (registers.h is not among
  the sources). The spec speaks of the condition of each direction of an endpoint (ready,
  not ready, stalled) and of arming the automatic status-stage OUT, so the register is the
  condition of its two directions, its kind (control or not) and the status-out flag. A call
  of the macro puts the directions its mask selects into the condition its value names, and
  \<open>status_out\<close> records whether the call passed \<^verbatim>\<open>EP_STATUS_OUT\<close> as its flags.
\<close>

datatype ep_stat = EP_DISAB | EP_STALL | EP_NAK | EP_VALID

record ep_reg =
  ep_control :: bool
  stat_tx :: ep_stat
  stat_rx :: ep_stat
  status_out :: bool

datatype ep_mask = EP_TX_MASK | EP_RX_MASK | EP_TX_RX_MASK

record ep_val =
  val_tx :: ep_stat
  val_rx :: ep_stat

definition EP_TX_VALID :: ep_val where
  "EP_TX_VALID = \<lparr>val_tx = EP_VALID, val_rx = EP_DISAB\<rparr>"

definition EP_TX_RX_VALID :: ep_val where
  "EP_TX_RX_VALID = \<lparr>val_tx = EP_VALID, val_rx = EP_VALID\<rparr>"

text \<open>The value \<^verbatim>\<open>EP_RX_VALID | EP_TX_STALL\<close> of the \<^verbatim>\<open>unknown_req\<close> label.\<close>

definition EP_RX_VALID_TX_STALL :: ep_val where
  "EP_RX_VALID_TX_STALL = \<lparr>val_tx = EP_STALL, val_rx = EP_VALID\<rparr>"

text \<open>\<^verbatim>\<open>struct stm32_endpoint\<close>, an entry of the endpoint table \<^verbatim>\<open>btable_ep[]\<close>.\<close>

record stm32_endpoint =
  tx_addr :: usb_uint
  tx_count :: usb_uint
  rx_addr :: usb_uint
  rx_count :: usb_uint

text \<open>
  What the handlers registered from outside this file (interface requests, the other
  endpoints) can reach: packet memory, the endpoint table, the endpoint registers, and a
  state of their own (\<open>ext\<close>). The \<^verbatim>\<open>static\<close> variables of usb.c are out of their reach.
\<close>

record 'x usb_hw =
  usb_ram :: usb_ram_t
  btable_ep :: "nat \<Rightarrow> stm32_endpoint"
  USB_EP :: "nat \<Rightarrow> ep_reg"
  ext :: 'x

text \<open>
  The state of usb.c: the hardware above, the address register \<^verbatim>\<open>STM32_USB_DADDR\<close>, the bits
  of \<^verbatim>\<open>STM32_USB_CNTR\<close> that the file names (registers.h, which places them in the register, is
  not among the sources: each named bit is a boolean), the USB clock and the sleep mask bit
  that \<^verbatim>\<open>clock_enable_module\<close> and \<^verbatim>\<open>enable_sleep\<close> / \<^verbatim>\<open>disable_sleep\<close> switch, and the file's
  \<^verbatim>\<open>static\<close> variables. Console output is not modelled.
\<close>

record 'x usb_state =
  hw :: "'x usb_hw"
  USB_DADDR :: usb_uint
  CNTR_FSUSP :: bool
  CNTR_LP_MODE :: bool
  CNTR_RESUME :: bool
  CNTR_ESOFM :: bool
  usb_clock :: bool
  sleep_allowed :: bool
  set_addr :: int
  desc_left :: int
  desc_ptr :: nat
  iface_next :: uint8_t
  remote_wakeup_enabled :: int
  usb_wake_done :: int
  esof_count :: int

text \<open>\<^verbatim>\<open>enum usb_ep_event\<close>\<close>

datatype usb_ep_event = USB_EVENT_RESET | USB_EVENT_DEVICE_RESUME

text \<open>
  What the build and the board supply: the memory holding the descriptor blobs and their
  addresses, the counts, the \<^verbatim>\<open>CONFIG_*\<close> switches of the \<^verbatim>\<open>#ifdef\<close>s (a descriptor that exists
  only under a switch is \<open>Some\<close> when the switch is on), the place of the two control
  buffers in packet memory (word indices into \<^verbatim>\<open>__usb_ram_start\<close>), and the handlers
  registered from other files. An interface handler is called with the receive buffer or
  with \<^verbatim>\<open>NULL\<close> (the boolean: the buffer is passed) and returns its \<^verbatim>\<open>int\<close>.
\<close>

record 'x usb_config =
  desc_mem :: memory
  USB_IFACE_COUNT :: nat
  USB_EP_COUNT :: nat
  USB_STR_COUNT :: nat
  USB_DESC_SIZE :: nat
  dev_desc :: nat
  usb_desc :: nat
  usb_strings :: "nat \<Rightarrow> nat"
  bos_ctx :: "(nat \<times> int) option"
  usb_serialno_desc :: "(nat \<times> nat) option"
  webusb_url :: "nat option"
  CONFIG_USB_SELF_POWERED :: bool
  CONFIG_USB_REMOTE_WAKEUP :: bool
  CONFIG_USB_SUSPEND :: bool
  ep0_buf_tx :: nat
  ep0_buf_rx :: nat
  usb_iface_request :: "nat \<Rightarrow> bool \<Rightarrow> 'x usb_hw \<Rightarrow> int \<times> 'x usb_hw"
  usb_ep_tx :: "nat \<Rightarrow> 'x usb_hw \<Rightarrow> 'x usb_hw"
  usb_ep_rx :: "nat \<Rightarrow> 'x usb_hw \<Rightarrow> 'x usb_hw"
  usb_ep_event :: "nat \<Rightarrow> usb_ep_event \<Rightarrow> 'x usb_hw \<Rightarrow> 'x usb_hw"
  board_usb_wake :: "'x \<Rightarrow> 'x"

definition STM32_TOGGLE_EP :: "nat \<Rightarrow> ep_mask \<Rightarrow> ep_val \<Rightarrow> bool \<Rightarrow> 'x usb_hw \<Rightarrow> 'x usb_hw" where
  "STM32_TOGGLE_EP n msk val flags h =
     (let r = USB_EP h n;
          r = r\<lparr>stat_tx := (if msk = EP_TX_MASK \<or> msk = EP_TX_RX_MASK then val_tx val else stat_tx r),
                stat_rx := (if msk = EP_RX_MASK \<or> msk = EP_TX_RX_MASK then val_rx val else stat_rx r),
                status_out := flags\<rparr>
      in h\<lparr>USB_EP := (USB_EP h)(n := r)\<rparr>)"

text \<open>\<^verbatim>\<open>#define EP0_BUF_TX_SRAM_ADDR ((void *) usb_sram_addr(ep0_buf_tx))\<close>, a byte offset.\<close>

definition EP0_BUF_TX_SRAM_ADDR :: "'x usb_config \<Rightarrow> nat" where
  "EP0_BUF_TX_SRAM_ADDR cfg = ep0_buf_tx cfg * 2"

text \<open>\<^verbatim>\<open>ep0_buf_rx[k]\<close>\<close>

definition ep0_buf_rx_at :: "'x usb_config \<Rightarrow> 'x usb_state \<Rightarrow> nat \<Rightarrow> usb_uint" where
  "ep0_buf_rx_at cfg s k = usb_ram (hw s) (ep0_buf_rx cfg + k)"

text \<open>\<^verbatim>\<open>btable_ep[0].tx_count = v\<close>\<close>

definition set_tx_count0 :: "usb_uint \<Rightarrow> 'x usb_hw \<Rightarrow> 'x usb_hw" where
  "set_tx_count0 v h = h\<lparr>btable_ep := (btable_ep h)(0 := (btable_ep h 0)\<lparr>tx_count := v\<rparr>)\<rparr>"


section \<open>The control endpoint\<close>

text \<open>
  Modelled from the spec: \<^verbatim>\<open>struct usb_setup_packet\<close>, whose declaration is not among the
  sources. The spec gives the setup packet as a request-type byte, a request code, a 16-bit
  value, a 16-bit index and a 16-bit length; the request code is a byte, as in the setup
  packet of the USB standard. The field names are those that \<^verbatim>\<open>usb_read_setup_packet\<close>
  assigns.
\<close>

record usb_setup_packet =
  bmRequestType :: uint8_t
  bRequest :: uint8_t
  wValue :: usb_uint
  wIndex :: usb_uint
  wLength :: usb_uint

text \<open>
  \<^verbatim>\<open>usb_read_setup_packet(buffer, packet)\<close>: the five assignments; the two from \<^verbatim>\<open>buffer[0]\<close>
  keep eight bits each.
\<close>

definition usb_read_setup_packet :: "(nat \<Rightarrow> usb_uint) \<Rightarrow> usb_setup_packet" where
  "usb_read_setup_packet buffer =
     \<lparr>bmRequestType = ucast (buffer 0 AND 0xff),
      bRequest = ucast (drop_bit 8 (buffer 0)),
      wValue = buffer 1,
      wIndex = buffer 2,
      wLength = buffer 3\<rparr>"

text \<open>
  \<^verbatim>\<open>ep0_send_descriptor(desc, len, fixup_size)\<close>. \<open>desc\<close> is the address of the descriptor.
  The last argument of the macro, \<^verbatim>\<open>desc_left ? 0 : EP_STATUS_OUT\<close>, reads \<^verbatim>\<open>desc_left\<close> as it
  stands after the \<^verbatim>\<open>if\<close>.
\<close>

definition ep0_send_descriptor ::
  "'x usb_config \<Rightarrow> nat \<Rightarrow> int \<Rightarrow> usb_uint \<Rightarrow> 'x usb_state \<Rightarrow> 'x usb_state" where
  "ep0_send_descriptor cfg desc len fixup_size s =
     (let len = min (uint (ep0_buf_rx_at cfg s 3)) len;
          (s, len) =
            (if len \<ge> int USB_MAX_PACKET_SIZE
             then (s\<lparr>desc_left := len - int USB_MAX_PACKET_SIZE,
                     desc_ptr := desc + USB_MAX_PACKET_SIZE\<rparr>, int USB_MAX_PACKET_SIZE)
             else (s, len));
          h = hw s;
          h = h\<lparr>usb_ram := memcpy_to_usbram (usb_ram h) (desc_mem cfg)
                              (EP0_BUF_TX_SRAM_ADDR cfg) desc (size_t len)\<rparr>;
          h = (if fixup_size \<noteq> 0
               then h\<lparr>usb_ram := (usb_ram h)(ep0_buf_tx cfg + 1 := fixup_size)\<rparr> else h);
          h = set_tx_count0 (word_of_int len) h;
          h = STM32_TOGGLE_EP 0 EP_TX_RX_MASK EP_TX_RX_VALID (desc_left s = 0) h
      in s\<lparr>hw := h\<rparr>)"

text \<open>
  The \<^verbatim>\<open>switch (type)\<close> of \<^verbatim>\<open>ep0_rx\<close>: the descriptor and its length, or \<open>None\<close> where the
  code jumps to \<^verbatim>\<open>unknown_req\<close>.
\<close>

definition get_descriptor :: "'x usb_config \<Rightarrow> uint8_t \<Rightarrow> uint8_t \<Rightarrow> (nat \<times> int) option" where
  "get_descriptor cfg type idx =
     (if type = USB_DT_DEVICE then Some (dev_desc cfg, int USB_DT_DEVICE_SIZE)
      else if type = USB_DT_CONFIGURATION then Some (usb_desc cfg, int (USB_DESC_SIZE cfg))
      else if type = USB_DT_BOS \<and> bos_ctx cfg \<noteq> None then bos_ctx cfg
      else if type = USB_DT_STRING then
        (if unat idx \<ge> USB_STR_COUNT cfg then None
         else
           (let desc =
                  (case usb_serialno_desc cfg of
                     Some (USB_STR_SERIALNO, d) \<Rightarrow>
                       if unat idx = USB_STR_SERIALNO then d else usb_strings cfg (unat idx)
                   | None \<Rightarrow> usb_strings cfg (unat idx))
            in Some (desc, uint (desc_mem cfg desc))))
      else if type = USB_DT_DEVICE_QUALIFIER then None
      else None)"

text \<open>
  The source of \<^verbatim>\<open>memcpy_to_usbram(EP0_BUF_TX_SRAM_ADDR, (void *)&data, 2)\<close>: the two bytes of
  the local \<^verbatim>\<open>uint16_t data\<close>, low byte first, in a memory of their own at address 0.
\<close>

definition mem_of_uint16 :: "usb_uint \<Rightarrow> memory" where
  "mem_of_uint16 data = (\<lambda>a. if a = 0 then ucast data else ucast (drop_bit 8 data))"

text \<open>
  The body of \<^verbatim>\<open>ep0_rx\<close> after the interface and vendor stages: the standard requests.
  \<open>Inl\<close> is \<^verbatim>\<open>goto unknown_req\<close> (with the state reached), \<open>Inr\<close> is \<^verbatim>\<open>return\<close>.
\<close>

definition ep0_rx_standard ::
  "'x usb_config \<Rightarrow> usb_uint \<Rightarrow> 'x usb_state \<Rightarrow> 'x usb_state + 'x usb_state" where
  "ep0_rx_standard cfg req s =
     (if req = (USB_DIR_IN OR push_bit 8 USB_REQ_GET_DESCRIPTOR) then
        (let type = (ucast (drop_bit 8 (ep0_buf_rx_at cfg s 1)) :: uint8_t);
             idx = (ucast (ep0_buf_rx_at cfg s 1 AND 0xff) :: uint8_t)
         in case get_descriptor cfg type idx of
              None \<Rightarrow> Inl s
            | Some (desc, len) \<Rightarrow>
                Inr (ep0_send_descriptor cfg desc len
                      (if type = USB_DT_CONFIGURATION then of_nat (USB_DESC_SIZE cfg) else 0) s))
      else if req = (USB_DIR_IN OR push_bit 8 USB_REQ_GET_STATUS) then
        (let data = (0 :: usb_uint);
             data = (if CONFIG_USB_SELF_POWERED cfg
                     then data OR USB_REQ_GET_STATUS_SELF_POWERED else data);
             data = (if CONFIG_USB_REMOTE_WAKEUP cfg \<and> remote_wakeup_enabled s \<noteq> 0
                     then data OR USB_REQ_GET_STATUS_REMOTE_WAKEUP else data);
             h = hw s;
             h = h\<lparr>usb_ram := memcpy_to_usbram (usb_ram h) (mem_of_uint16 data)
                                 (EP0_BUF_TX_SRAM_ADDR cfg) 0 2\<rparr>;
             h = set_tx_count0 2 h;
             h = STM32_TOGGLE_EP 0 EP_TX_RX_MASK EP_TX_RX_VALID True h
         in Inr (s\<lparr>hw := h\<rparr>))
      else if (req AND 0xff) = USB_DIR_OUT then
        (if drop_bit 8 req = USB_REQ_SET_FEATURE \<or> drop_bit 8 req = USB_REQ_CLEAR_FEATURE then
           (if CONFIG_USB_REMOTE_WAKEUP cfg
               \<and> ep0_buf_rx_at cfg s 1 = USB_REQ_FEATURE_DEVICE_REMOTE_WAKEUP
            then
              (let s = s\<lparr>remote_wakeup_enabled :=
                          (if drop_bit 8 req = USB_REQ_SET_FEATURE then 1 else 0)\<rparr>;
                   h = set_tx_count0 0 (hw s);
                   h = STM32_TOGGLE_EP 0 EP_TX_RX_MASK EP_TX_RX_VALID False h
               in Inr (s\<lparr>hw := h\<rparr>))
            else Inl s)
         else if drop_bit 8 req = USB_REQ_SET_ADDRESS then
           (let s = s\<lparr>set_addr := uint (ep0_buf_rx_at cfg s 1 AND 0xff)\<rparr>;
                h = set_tx_count0 0 (hw s);
                h = STM32_TOGGLE_EP 0 EP_TX_RX_MASK EP_TX_RX_VALID False h
            in Inr (s\<lparr>hw := h\<rparr>))
         else if drop_bit 8 req = USB_REQ_SET_CONFIGURATION then
           (let h = set_tx_count0 0 (hw s);
                h = STM32_TOGGLE_EP 0 EP_TX_RX_MASK EP_TX_RX_VALID False h
            in Inr (s\<lparr>hw := h\<rparr>))
         else Inl s)
      else Inl s)"

text \<open>
  The vendor stage of \<^verbatim>\<open>ep0_rx\<close>, entered when \<^verbatim>\<open>(req & USB_TYPE_MASK) == USB_TYPE_VENDOR\<close>.
\<close>

definition ep0_rx_vendor ::
  "'x usb_config \<Rightarrow> usb_uint \<Rightarrow> 'x usb_state \<Rightarrow> 'x usb_state + 'x usb_state" where
  "ep0_rx_vendor cfg req s =
     (case webusb_url cfg of
        Some url \<Rightarrow>
          (let b_req = (ucast (drop_bit 8 req) :: uint8_t);
               idx = ep0_buf_rx_at cfg s 2
           in if b_req = 0x01 \<and> idx = WEBUSB_REQ_GET_URL
              then (let len = uint (desc_mem cfg url)
                    in Inr (ep0_send_descriptor cfg url len 0 s))
              else Inl s)
      | None \<Rightarrow> Inl s)"

text \<open>
  \<^verbatim>\<open>ep0_rx\<close> up to its \<^verbatim>\<open>return\<close> or its \<^verbatim>\<open>goto unknown_req\<close>: the reset of the transfer state,
  the interface stage, then the vendor stage or the standard requests.
\<close>

definition ep0_rx_dispatch :: "'x usb_config \<Rightarrow> 'x usb_state \<Rightarrow> 'x usb_state + 'x usb_state" where
  "ep0_rx_dispatch cfg s =
     (let req = ep0_buf_rx_at cfg s 0;
          s = s\<lparr>desc_ptr := 0\<rparr>;
          s = s\<lparr>iface_next := of_nat (USB_IFACE_COUNT cfg)\<rparr>;
          iface = (ucast (ep0_buf_rx_at cfg s 2 AND 0xff) :: uint8_t)
      in if (req AND USB_RECIP_MASK) = USB_RECIP_INTERFACE \<and> unat iface < USB_IFACE_COUNT cfg
         then
           (let (ret, h) = usb_iface_request cfg (unat iface) True (hw s);
                s = s\<lparr>hw := h\<rparr>
            in if ret < 0 then Inl s
               else if ret = 1 then Inr (s\<lparr>iface_next := iface\<rparr>)
               else Inr s)
         else if (req AND USB_TYPE_MASK) = USB_TYPE_VENDOR then ep0_rx_vendor cfg req s
         else ep0_rx_standard cfg req s)"

text \<open>
  The label \<^verbatim>\<open>unknown_req\<close>:
  \<^verbatim>\<open>STM32_TOGGLE_EP(0, EP_TX_RX_MASK, EP_RX_VALID | EP_TX_STALL, 0);\<close>
\<close>

definition unknown_req :: "'x usb_state \<Rightarrow> 'x usb_state" where
  "unknown_req s = s\<lparr>hw := STM32_TOGGLE_EP 0 EP_TX_RX_MASK EP_RX_VALID_TX_STALL False (hw s)\<rparr>"

definition ep0_rx :: "'x usb_config \<Rightarrow> 'x usb_state \<Rightarrow> 'x usb_state" where
  "ep0_rx cfg s = (case ep0_rx_dispatch cfg s of Inl s' \<Rightarrow> unknown_req s' | Inr s' \<Rightarrow> s')"

text \<open>\<^verbatim>\<open>ep0_tx\<close>; its label \<^verbatim>\<open>error\<close> is the last branch.\<close>

definition ep0_tx :: "'x usb_config \<Rightarrow> 'x usb_state \<Rightarrow> 'x usb_state" where
  "ep0_tx cfg s =
     (let s = (if set_addr s \<noteq> 0
               then s\<lparr>USB_DADDR := word_of_int (set_addr s OR 0x80), set_addr := 0\<rparr>
               else s)
      in if desc_ptr s \<noteq> 0 then
           (let len = min (desc_left s) (int USB_MAX_PACKET_SIZE);
                h = hw s;
                h = h\<lparr>usb_ram := memcpy_to_usbram (usb_ram h) (desc_mem cfg)
                                    (EP0_BUF_TX_SRAM_ADDR cfg) (desc_ptr s) (size_t len)\<rparr>;
                h = set_tx_count0 (word_of_int len) h;
                s = s\<lparr>desc_left := desc_left s - len\<rparr>;
                s = s\<lparr>desc_ptr := nat (int (desc_ptr s) + len)\<rparr>;
                h = STM32_TOGGLE_EP 0 EP_TX_MASK EP_TX_VALID (desc_left s = 0) h
            in s\<lparr>hw := h\<rparr>)
         else if unat (iface_next s) < USB_IFACE_COUNT cfg then
           (let (ret, h) = usb_iface_request cfg (unat (iface_next s)) False (hw s);
                s = s\<lparr>hw := h\<rparr>
            in if ret < 0 then s\<lparr>hw := STM32_TOGGLE_EP 0 EP_TX_MASK EP_TX_VALID False (hw s)\<rparr>
               else if ret = 0 then s\<lparr>iface_next := of_nat (USB_IFACE_COUNT cfg)\<rparr>
               else s)
         else s\<lparr>hw := STM32_TOGGLE_EP 0 EP_TX_MASK EP_TX_VALID False (hw s)\<rparr>)"

text \<open>
  \<^verbatim>\<open>ep0_event\<close>: the register gets control type, TX NAK and RX VALID (the comments of the
  three shifted constants); the table entry gets the two buffer offsets
  (\<^verbatim>\<open>usb_sram_addr\<close>: the word index times \<^verbatim>\<open>sizeof(uint16_t)\<close>), the receive block count and
  a zero transmit count.
\<close>

definition ep0_event :: "'x usb_config \<Rightarrow> usb_ep_event \<Rightarrow> 'x usb_hw \<Rightarrow> 'x usb_hw" where
  "ep0_event cfg evt h =
     (if evt \<noteq> USB_EVENT_RESET then h
      else
        (let h = h\<lparr>USB_EP := (USB_EP h)(0 :=
                      \<lparr>ep_control = True, stat_tx = EP_NAK, stat_rx = EP_VALID, status_out = False\<rparr>)\<rparr>;
             e = btable_ep h 0;
             e = e\<lparr>tx_addr := of_nat (ep0_buf_tx cfg * 2)\<rparr>;
             e = e\<lparr>rx_addr := of_nat (ep0_buf_rx cfg * 2)\<rparr>;
             e = e\<lparr>rx_count := 0x8000 OR push_bit 10 (of_nat (USB_MAX_PACKET_SIZE div 32 - 1))\<rparr>;
             e = e\<lparr>tx_count := 0\<rparr>
         in h\<lparr>btable_ep := (btable_ep h)(0 := e)\<rparr>))"

text \<open>
  The handler tables \<^verbatim>\<open>usb_ep_event[]\<close>, \<^verbatim>\<open>usb_ep_rx[]\<close>, \<^verbatim>\<open>usb_ep_tx[]\<close>: entry 0 is declared
  here by \<^verbatim>\<open>USB_DECLARE_EP(0, ep0_tx, ep0_rx, ep0_event)\<close>, the others come from other files.
\<close>

definition call_ep_event :: "'x usb_config \<Rightarrow> nat \<Rightarrow> usb_ep_event \<Rightarrow> 'x usb_state \<Rightarrow> 'x usb_state" where
  "call_ep_event cfg ep evt s =
     s\<lparr>hw := (if ep = 0 then ep0_event cfg evt (hw s) else usb_ep_event cfg ep evt (hw s))\<rparr>"

definition call_ep_rx :: "'x usb_config \<Rightarrow> nat \<Rightarrow> 'x usb_state \<Rightarrow> 'x usb_state" where
  "call_ep_rx cfg ep s = (if ep = 0 then ep0_rx cfg s else s\<lparr>hw := usb_ep_rx cfg ep (hw s)\<rparr>)"

definition call_ep_tx :: "'x usb_config \<Rightarrow> nat \<Rightarrow> 'x usb_state \<Rightarrow> 'x usb_state" where
  "call_ep_tx cfg ep s = (if ep = 0 then ep0_tx cfg s else s\<lparr>hw := usb_ep_tx cfg ep (hw s)\<rparr>)"

text \<open>
  \<^verbatim>\<open>usb_reset\<close>: the loop over the endpoints, then \<^verbatim>\<open>STM32_USB_DADDR = 0 | 0x80\<close>.
\<close>

definition usb_reset :: "'x usb_config \<Rightarrow> 'x usb_state \<Rightarrow> 'x usb_state" where
  "usb_reset cfg s =
     (let s = fold (\<lambda>ep. call_ep_event cfg ep USB_EVENT_RESET) [0..<USB_EP_COUNT cfg] s
      in s\<lparr>USB_DADDR := 0 OR 0x80\<rparr>)"


section \<open>Suspend, resume and remote wake\<close>

text \<open>\<^verbatim>\<open>usb_suspend\<close> and \<^verbatim>\<open>usb_resume\<close> (under \<^verbatim>\<open>CONFIG_USB_SUSPEND\<close>).\<close>

definition usb_suspend :: "'x usb_state \<Rightarrow> 'x usb_state" where
  "usb_suspend s =
     (let s = s\<lparr>CNTR_FSUSP := True\<rparr>;
          s = s\<lparr>CNTR_LP_MODE := True\<rparr>;
          s = s\<lparr>usb_clock := False\<rparr>
      in s\<lparr>sleep_allowed := True\<rparr>)"

definition usb_resume :: "'x usb_state \<Rightarrow> 'x usb_state" where
  "usb_resume s =
     (let s = s\<lparr>usb_clock := True\<rparr>;
          s = s\<lparr>CNTR_FSUSP := False\<rparr>
      in s\<lparr>sleep_allowed := False\<rparr>)"

text \<open>
  Modelled from the spec: \<^verbatim>\<open>atomic_read_clear\<close> (atomic.h is not among the sources), which
  the spec calls an atomic exchange that reads the flag and clears it. The result is the
  value read and the value left in the variable.
\<close>

definition atomic_read_clear :: "int \<Rightarrow> int \<times> int" where
  "atomic_read_clear v = (v, 0)"

text \<open>
  \<^verbatim>\<open>usb_wake\<close> (under \<^verbatim>\<open>CONFIG_USB_REMOTE_WAKEUP\<close>). The board hook \<^verbatim>\<open>board_usb_wake\<close> acts on
  the state outside this file.
\<close>

definition usb_wake :: "'x usb_config \<Rightarrow> 'x usb_state \<Rightarrow> 'x usb_state" where
  "usb_wake cfg s =
     (if remote_wakeup_enabled s = 0 \<or> \<not> CNTR_FSUSP s then s
      else
        (let (old, new) = atomic_read_clear (usb_wake_done s);
             s = s\<lparr>usb_wake_done := new\<rparr>
         in if old = 0 then s
            else
              (let s = s\<lparr>esof_count := 3\<rparr>;
                   s = s\<lparr>CNTR_RESUME := True, CNTR_ESOFM := True\<rparr>
               in s\<lparr>hw := (hw s)\<lparr>ext := board_usb_wake cfg (ext (hw s))\<rparr>\<rparr>)))"

text \<open>
  The interrupt status \<^verbatim>\<open>STM32_USB_ISTR\<close> as \<^verbatim>\<open>usb_interrupt\<close> reads it: the bits it tests and
  the endpoint number. The line state (\<^verbatim>\<open>STM32_USB_FNR\<close> masked and shifted, 0 to 3) is the
  second input of the handler.
\<close>

record istr =
  ISTR_RESET :: bool
  ISTR_ESOF :: bool
  ISTR_SUSP :: bool
  ISTR_WKUP :: bool
  ISTR_CTR :: bool
  ISTR_DIR :: bool
  ISTR_EP_ID :: nat

text \<open>The block of \<^verbatim>\<open>usb_interrupt\<close> that counts ESOF interrupts for \<^verbatim>\<open>usb_wake\<close>.\<close>

definition esof_countdown :: "nat \<Rightarrow> 'x usb_state \<Rightarrow> 'x usb_state" where
  "esof_countdown state s =
     (let s = s\<lparr>esof_count := esof_count s - 1\<rparr>;
          s = (if esof_count s = 0 then s\<lparr>CNTR_RESUME := False\<rparr> else s)
      in if esof_count s \<le> 0 then
           (if state = 2 \<or> state = 3 \<or> esof_count s \<le> - USB_RESUME_TIMEOUT_MS then
              (let s = s\<lparr>CNTR_ESOFM := False\<rparr>;
                   s = s\<lparr>usb_wake_done := 1\<rparr>
               in if state \<noteq> 2 then usb_suspend s else s)
            else s)
         else s)"

text \<open>
  \<^verbatim>\<open>usb_interrupt\<close>. The final write \<^verbatim>\<open>STM32_USB_ISTR = ~status\<close> acknowledges the causes read;
  the status is an input here, so the write leaves no trace in the state.
\<close>

definition usb_interrupt :: "'x usb_config \<Rightarrow> istr \<Rightarrow> nat \<Rightarrow> 'x usb_state \<Rightarrow> 'x usb_state" where
  "usb_interrupt cfg status state s =
     (let s = (if ISTR_RESET status then usb_reset cfg s else s);
          s = (if CONFIG_USB_SUSPEND cfg \<and> CONFIG_USB_REMOTE_WAKEUP cfg
                  \<and> ISTR_ESOF status \<and> usb_wake_done s = 0
               then esof_countdown state s else s);
          s = (if CONFIG_USB_SUSPEND cfg \<and> ISTR_SUSP status then usb_suspend s else s);
          s = (if CONFIG_USB_SUSPEND cfg \<and> ISTR_WKUP status then usb_resume s else s)
      in if ISTR_CTR status then
           (let ep = ISTR_EP_ID status
            in if ep < USB_EP_COUNT cfg
               then (if ISTR_DIR status then call_ep_rx cfg ep s else call_ep_tx cfg ep s)
               else s)
         else s)"

text \<open>
  The interrupt handler entered several times in a row, each time with the status and the
  line state it reads.
\<close>

definition usb_interrupts :: "'x usb_config \<Rightarrow> (istr \<times> nat) list \<Rightarrow> 'x usb_state \<Rightarrow> 'x usb_state" where
  "usb_interrupts cfg irqs s = fold (\<lambda>(status, state). usb_interrupt cfg status state) irqs s"

text \<open>
  \<^verbatim>\<open>usb_is_suspended\<close>; the second test is compiled under \<^verbatim>\<open>CONFIG_USB_REMOTE_WAKEUP\<close>. The
  function is called from ordinary code and makes two reads, of \<^verbatim>\<open>STM32_USB_CNTR\<close> and then of
  the volatile \<^verbatim>\<open>usb_wake_done\<close>; the interrupt handler can run between them. \<open>irqs\<close> are the
  interrupts served after the first read and before the second (none when the call is not
  interrupted there); they leave the device in the state \<open>usb_interrupts cfg irqs s\<close>.
\<close>

definition usb_is_suspended :: "'x usb_config \<Rightarrow> (istr \<times> nat) list \<Rightarrow> 'x usb_state \<Rightarrow> int" where
  "usb_is_suspended cfg irqs s =
     (if CNTR_FSUSP s then 1
      else
        (let s = usb_interrupts cfg irqs s
         in if CONFIG_USB_REMOTE_WAKEUP cfg \<and> usb_wake_done s = 0 then 1
            else 0))"


section \<open>Requests and what the host observes\<close>

text \<open>
  The dispatch rules of the specification, on the fields of the setup packet. A request goes
  to a registered interface handler when its recipient is an interface and the low byte of
  \<^verbatim>\<open>wIndex\<close> is the number of a registered interface.
\<close>

definition spec_interface_request :: "'x usb_config \<Rightarrow> usb_setup_packet \<Rightarrow> bool" where
  "spec_interface_request cfg p =
     (bmRequestType p AND 0x1f = 0x01 \<and>
      unat (ucast (wIndex p AND 0xff) :: uint8_t) < USB_IFACE_COUNT cfg)"

text \<open>
  The descriptors that GET_DESCRIPTOR resolves: device, configuration, BOS if enabled, and a
  string whose index is within the string table.
\<close>

definition spec_descriptor_supported :: "'x usb_config \<Rightarrow> uint8_t \<Rightarrow> uint8_t \<Rightarrow> bool" where
  "spec_descriptor_supported cfg type idx =
     (type = USB_DT_DEVICE \<or> type = USB_DT_CONFIGURATION \<or>
      (type = USB_DT_BOS \<and> bos_ctx cfg \<noteq> None) \<or>
      (type = USB_DT_STRING \<and> unat idx < USB_STR_COUNT cfg))"

text \<open>
  The requests that are matched at some stage: an interface request whose handler (given the
  hardware state \<open>h\<close> it runs on) does not report an error; else a vendor request that is the
  URL request of an enabled WebUSB table; else GET_DESCRIPTOR (device to host, \<^verbatim>\<open>bRequest\<close> 6)
  of a supported descriptor, GET_STATUS (\<^verbatim>\<open>bRequest\<close> 0), and, host to device, SET_ADDRESS
  (5), SET_CONFIGURATION (9) and SET_FEATURE (3) or CLEAR_FEATURE (1) on the remote wake-up
  feature when remote wake-up is compiled in. Every other request is unmatched at every
  stage.
\<close>

definition spec_request_supported :: "'x usb_config \<Rightarrow> 'x usb_hw \<Rightarrow> usb_setup_packet \<Rightarrow> bool" where
  "spec_request_supported cfg h p =
     (if spec_interface_request cfg p
      then 0 \<le> fst (usb_iface_request cfg (unat (ucast (wIndex p AND 0xff) :: uint8_t)) True h)
      else if bmRequestType p AND 0x60 = 0x40
      then webusb_url cfg \<noteq> None \<and> bRequest p = 0x01 \<and> wIndex p = 0x02
      else if bmRequestType p = 0x80 \<and> bRequest p = 0x06
      then spec_descriptor_supported cfg (ucast (drop_bit 8 (wValue p))) (ucast (wValue p AND 0xff))
      else if bmRequestType p = 0x80 \<and> bRequest p = 0x00
      then True
      else bmRequestType p = 0x00 \<and>
           (bRequest p = 0x05 \<or> bRequest p = 0x09 \<or>
            ((bRequest p = 0x01 \<or> bRequest p = 0x03) \<and> CONFIG_USB_REMOTE_WAKEUP cfg
               \<and> wValue p = 0x01)))"

text \<open>
  The descriptor that a request hands to the descriptor streamer, with its length: the URL
  descriptor for the vendor URL request, the resolved descriptor for GET_DESCRIPTOR, none
  for every other request.
\<close>

definition spec_descriptor_requested :: "'x usb_config \<Rightarrow> usb_setup_packet \<Rightarrow> (nat \<times> int) option" where
  "spec_descriptor_requested cfg p =
     (if spec_interface_request cfg p then None
      else if bmRequestType p AND 0x60 = 0x40 then
        (case webusb_url cfg of
           Some url \<Rightarrow>
             if bRequest p = 0x01 \<and> wIndex p = 0x02 then Some (url, uint (desc_mem cfg url))
             else None
         | None \<Rightarrow> None)
      else if bmRequestType p = 0x80 \<and> bRequest p = 0x06
      then get_descriptor cfg (ucast (drop_bit 8 (wValue p))) (ucast (wValue p AND 0xff))
      else None)"

text \<open>
  The hardware receiving a SETUP packet: its four words are stored in \<^verbatim>\<open>ep0_buf_rx\<close> before
  the interrupt that runs \<^verbatim>\<open>ep0_rx\<close>.
\<close>

definition rx_setup ::
  "'x usb_config \<Rightarrow> usb_uint \<Rightarrow> usb_uint \<Rightarrow> usb_uint \<Rightarrow> usb_uint \<Rightarrow> 'x usb_state \<Rightarrow> 'x usb_state" where
  "rx_setup cfg w0 w1 w2 w3 s =
     s\<lparr>hw := (hw s)\<lparr>usb_ram := (usb_ram (hw s))
            (ep0_buf_rx cfg := w0, ep0_buf_rx cfg + 1 := w1,
             ep0_buf_rx cfg + 2 := w2, ep0_buf_rx cfg + 3 := w3)\<rparr>\<rparr>"

text \<open>
  The payload of the IN packet staged on endpoint 0: the first \<^verbatim>\<open>btable_ep[0].tx_count\<close>
  bytes of \<^verbatim>\<open>ep0_buf_tx\<close>.
\<close>

definition ep0_in_payload :: "'x usb_config \<Rightarrow> 'x usb_state \<Rightarrow> uint8_t list" where
  "ep0_in_payload cfg s =
     map (usbram_byte (usb_ram (hw s)))
       [EP0_BUF_TX_SRAM_ADDR cfg ..< EP0_BUF_TX_SRAM_ADDR cfg + unat (tx_count (btable_ep (hw s) 0))]"

text \<open>
  The payloads staged by \<open>k\<close> successive calls of \<^verbatim>\<open>ep0_tx\<close>, and the IN stage of a control
  transfer: the packet staged by \<^verbatim>\<open>ep0_rx\<close> for the setup in the receive buffer, followed by
  those of \<open>k\<close> further IN tokens.
\<close>

fun in_packets :: "'x usb_config \<Rightarrow> nat \<Rightarrow> 'x usb_state \<Rightarrow> uint8_t list list" where
  "in_packets cfg 0 s = []"
| "in_packets cfg (Suc k) s = ep0_in_payload cfg (ep0_tx cfg s) # in_packets cfg k (ep0_tx cfg s)"

definition in_stage :: "'x usb_config \<Rightarrow> nat \<Rightarrow> 'x usb_state \<Rightarrow> uint8_t list list" where
  "in_stage cfg k s = ep0_in_payload cfg (ep0_rx cfg s) # in_packets cfg k (ep0_rx cfg s)"

text \<open>
  The bytes of a descriptor as \<^verbatim>\<open>ep0_send_descriptor\<close> puts them on the wire: with a non-zero
  \<^verbatim>\<open>fixup_size\<close>, the second word of the transmit buffer (bytes 2 and 3) is that size.
\<close>

definition fixup_bytes :: "usb_uint \<Rightarrow> uint8_t list \<Rightarrow> uint8_t list" where
  "fixup_bytes fixup_size bs =
     (if fixup_size \<noteq> 0
      then (bs[2 := ucast fixup_size])[3 := ucast (drop_bit 8 fixup_size)]
      else bs)"


section \<open>A concrete build and concrete states\<close>

text \<open>
  A concrete build for the closed instances below: the memory holds at each address the low
  byte of the address, so the string descriptors at the addresses \<open>0x364\<close>, \<open>0x404\<close> and
  \<open>0x640\<close> declare lengths of 100, 4 and 64 bytes; one interface, whose handler asks for
  more on the setup and is done on the next IN token; a board wake hook that counts its
  calls.
\<close>

definition test_config :: "nat usb_config" where
  "test_config =
     \<lparr>desc_mem = (\<lambda>a. of_nat a),
      USB_IFACE_COUNT = 1, USB_EP_COUNT = 2, USB_STR_COUNT = 3, USB_DESC_SIZE = 9,
      dev_desc = 0x100, usb_desc = 0x200,
      usb_strings = (\<lambda>i. if i = 0 then 0x364 else if i = 1 then 0x404 else 0x640),
      bos_ctx = None, usb_serialno_desc = None, webusb_url = None,
      CONFIG_USB_SELF_POWERED = True, CONFIG_USB_REMOTE_WAKEUP = True, CONFIG_USB_SUSPEND = True,
      ep0_buf_tx = 32, ep0_buf_rx = 64,
      usb_iface_request = (\<lambda>i rx h. (if rx then 1 else 0, h)),
      usb_ep_tx = (\<lambda>ep h. h), usb_ep_rx = (\<lambda>ep h. h), usb_ep_event = (\<lambda>ep evt h. h),
      board_usb_wake = Suc\<rparr>"

text \<open>Packet memory holding the four words of a setup packet in \<^verbatim>\<open>ep0_buf_rx\<close>, zero elsewhere.\<close>

definition setup_ram :: "usb_uint \<Rightarrow> usb_uint \<Rightarrow> usb_uint \<Rightarrow> usb_uint \<Rightarrow> usb_ram_t" where
  "setup_ram w0 w1 w2 w3 =
     (\<lambda>i. if i = 64 then w0 else if i = 65 then w1 else if i = 66 then w2
          else if i = 67 then w3 else 0)"

text \<open>
  The state after bring-up and a bus reset, with the given packet memory: address 0, nothing
  pending, not suspended.
\<close>

definition test_state :: "usb_ram_t \<Rightarrow> nat usb_state" where
  "test_state ram =
     \<lparr>hw = \<lparr>usb_ram = ram,
             btable_ep = (\<lambda>ep. \<lparr>tx_addr = 64, tx_count = 0, rx_addr = 128, rx_count = 0x8400\<rparr>),
             USB_EP = (\<lambda>ep. \<lparr>ep_control = True, stat_tx = EP_NAK, stat_rx = EP_VALID,
                                status_out = False\<rparr>),
             ext = 0\<rparr>,
      USB_DADDR = 0x80,
      CNTR_FSUSP = False, CNTR_LP_MODE = False, CNTR_RESUME = False, CNTR_ESOFM = False,
      usb_clock = True, sleep_allowed = False,
      set_addr = 0, desc_left = 0, desc_ptr = 0, iface_next = 1,
      remote_wakeup_enabled = 0, usb_wake_done = 1, esof_count = 0\<rparr>"

text \<open>
  The device suspended by the host with remote wake-up enabled, and an interrupt status with
  no cause set.
\<close>

definition suspended_state :: "nat usb_state" where
  "suspended_state =
     (test_state (\<lambda>i. 0))\<lparr>CNTR_FSUSP := True, CNTR_LP_MODE := True, usb_clock := False,
                              sleep_allowed := True, remote_wakeup_enabled := 1\<rparr>"

definition istr_none :: istr where
  "istr_none = \<lparr>ISTR_RESET = False, ISTR_ESOF = False, ISTR_SUSP = False, ISTR_WKUP = False,
                 ISTR_CTR = False, ISTR_DIR = False, ISTR_EP_ID = 0\<rparr>"

text \<open>
  The suspended device after a call of \<^verbatim>\<open>usb_wake\<close>, the host's resume signal (WKUP) and two
  ESOF interrupts of the countdown: the suspend bit is clear, the wake attempt is pending
  and one ESOF is left to count.
\<close>

definition waking_state :: "nat usb_state" where
  "waking_state =
     usb_interrupts test_config
       [(istr_none\<lparr>ISTR_WKUP := True\<rparr>, 0),
        (istr_none\<lparr>ISTR_ESOF := True\<rparr>, 0),
        (istr_none\<lparr>ISTR_ESOF := True\<rparr>, 0)]
       (usb_wake test_config suspended_state)"

section \<open>Properties of the copy routines\<close>

lemma const_ff: "(0xff :: 16 word) = mask 8" by (simp add: mask_eq_exp_minus_1)
lemma const_ff00: "(0xff00 :: 16 word) = push_bit 8 (mask 8)" by (simp add: mask_eq_exp_minus_1)
lemma bit8_hi: "\<not> bit (b::8 word) (8 + n)"
  by (auto dest: bit_imp_le_length)

lemma lead_byte_lo: "(ucast (((w::16 word) AND NOT 0xff00) OR push_bit 8 (ucast (b::8 word))) :: 8 word) = ucast w"
  unfolding const_ff00 by (rule bit_word_eqI) (auto simp: bit_simps)
lemma lead_byte_hi: "(ucast (drop_bit 8 (((w::16 word) AND NOT 0xff00) OR push_bit 8 (ucast (b::8 word)))) :: 8 word) = b"
  unfolding const_ff00 by (rule bit_word_eqI) (auto simp: bit_simps bit8_hi)
lemma trail_byte_lo: "(ucast (((w::16 word) AND NOT 0x00ff) OR ucast (b::8 word)) :: 8 word) = b"
  unfolding const_ff by (rule bit_word_eqI) (auto simp: bit_simps)
lemma trail_byte_hi: "(ucast (drop_bit 8 (((w::16 word) AND NOT 0x00ff) OR ucast (b::8 word))) :: 8 word) = ucast (drop_bit 8 w)"
  unfolding const_ff by (rule bit_word_eqI) (auto simp: bit_simps bit8_hi)
lemma byte_pair_lo: "(ucast ((push_bit 8 (ucast (b1::8 word)) :: 16 word) OR ucast (b0::8 word)) :: 8 word) = b0"
  by (rule bit_word_eqI) (auto simp: bit_simps)
lemma byte_pair_hi: "(ucast (drop_bit 8 ((push_bit 8 (ucast (b1::8 word)) :: 16 word) OR ucast (b0::8 word))) :: 8 word) = b1"
  by (rule bit_word_eqI) (auto simp: bit_simps bit8_hi)
lemma read_lo: "(ucast (drop_bit 0 (v::16 word) AND 0xff) :: 8 word) = ucast v"
  unfolding const_ff by (rule bit_word_eqI) (auto simp: bit_simps)
lemma read_hi: "(ucast (drop_bit 8 (v::16 word) AND 0xff) :: 8 word) = ucast (drop_bit 8 v)"
  unfolding const_ff by (rule bit_word_eqI) (auto simp: bit_simps)


lemma usbram_byte_upd:
  "usbram_byte (ram(d := w)) a =
     (if a div 2 = d then (if a mod 2 = 0 then ucast w else ucast (drop_bit 8 w))
      else usbram_byte ram a)"
  by (simp add: usbram_byte_def)

lemma to_usbram_loop_snd: "snd (to_usbram_loop k ram mem d s) = (d + k, s + 2 * k)"
  by (induction k arbitrary: ram d s) simp_all

lemma usbram_byte_to_loop:
  "usbram_byte (fst (to_usbram_loop k ram mem d s)) a =
     (if 2 * d \<le> a \<and> a < 2 * d + 2 * k then mem (s + (a - 2 * d)) else usbram_byte ram a)"
proof (induction k arbitrary: ram d s)
  case 0
  show ?case by auto
next
  case (Suc k)
  define W :: usb_uint where "W = push_bit 8 (ucast (mem (s + 1))) OR ucast (mem s)"
  have lo: "ucast W = mem s" unfolding W_def by (rule byte_pair_lo)
  have hi: "ucast (drop_bit 8 W) = mem (s + 1)" unfolding W_def by (rule byte_pair_hi)
  have step: "to_usbram_loop (Suc k) ram mem d s = to_usbram_loop k (ram(d := W)) mem (d + 1) (s + 2)"
    by (simp add: W_def)
  have upd: "usbram_byte (ram(d := W)) a =
      (if a = 2 * d then mem s else if a = 2 * d + 1 then mem (s + 1) else usbram_byte ram a)"
  proof -
    have "a div 2 = d \<longleftrightarrow> a = 2 * d \<or> a = 2 * d + 1" by presburger
    moreover have "(2 * d) mod 2 = 0" "(2 * d + 1) mod 2 \<noteq> 0" by presburger+
    ultimately show ?thesis by (auto simp: usbram_byte_upd lo hi)
  qed
  have ih: "usbram_byte (fst (to_usbram_loop (Suc k) ram mem d s)) a =
      (if 2 * (d + 1) \<le> a \<and> a < 2 * (d + 1) + 2 * k then mem (s + 2 + (a - 2 * (d + 1)))
       else usbram_byte (ram(d := W)) a)"
    unfolding step by (rule Suc.IH)
  consider (lo) "a < 2 * d" | (b0) "a = 2 * d" | (b1) "a = 2 * d + 1"
    | (mid) "2 * (d + 1) \<le> a" "a < 2 * (d + 1) + 2 * k" | (hi) "2 * (d + 1) + 2 * k \<le> a"
    by atomize_elim arith
  then show ?case
  proof cases
    case lo
    then show ?thesis unfolding ih upd by auto
  next
    case b0
    then show ?thesis unfolding ih upd by auto
  next
    case b1
    then show ?thesis unfolding ih upd by auto
  next
    case mid
    then have e: "s + 2 + (a - 2 * (d + 1)) = s + (a - 2 * d)" by arith
    from mid show ?thesis unfolding ih e by auto
  next
    case hi
    then show ?thesis unfolding ih upd by auto
  qed
qed

lemma usbram_byte_memcpy_to:
  "usbram_byte (memcpy_to_usbram ram mem dest src n) a =
     (if dest \<le> a \<and> a < dest + n then mem (src + (a - dest)) else usbram_byte ram a)"
proof (cases "dest mod 2 \<noteq> 0 \<and> n \<noteq> 0")
  case True
  define W :: usb_uint where "W = (ram (dest div 2) AND NOT 0xff00) OR push_bit 8 (ucast (mem src))"
  define ram1 where "ram1 = ram(dest div 2 := W)"
  define ram2 where "ram2 = fst (to_usbram_loop ((n - 1) div 2) ram1 mem (dest div 2 + 1) (src + 1))"
  define d2 where "d2 = dest div 2 + 1 + (n - 1) div 2"
  define s2 where "s2 = src + 1 + 2 * ((n - 1) div 2)"
  define T :: usb_uint where "T = (ram2 d2 AND NOT 0x00ff) OR ucast (mem s2)"
  have loop: "to_usbram_loop ((n - 1) div 2) ram1 mem (dest div 2 + 1) (src + 1) = (ram2, d2, s2)"
    using to_usbram_loop_snd [of "(n - 1) div 2" ram1 mem "dest div 2 + 1" "src + 1"]
    by (simp add: ram2_def d2_def s2_def prod_eq_iff)
  have res: "memcpy_to_usbram ram mem dest src n = (if (n - 1) mod 2 = 1 then ram2(d2 := T) else ram2)"
    unfolding memcpy_to_usbram_def Let_def
    by (simp only: True if_True prod.case simp_thms loop [unfolded ram1_def W_def] T_def)
  have Wlo: "ucast W = (ucast (ram (dest div 2)) :: uint8_t)" unfolding W_def by (rule lead_byte_lo)
  have Whi: "ucast (drop_bit 8 W) = mem src" unfolding W_def by (rule lead_byte_hi)
  have Tlo: "ucast T = mem s2" unfolding T_def by (rule trail_byte_lo)
  have Thi: "(ucast (drop_bit 8 T) :: uint8_t) = ucast (drop_bit 8 (ram2 d2))" unfolding T_def by (rule trail_byte_hi)
  have b1: "usbram_byte ram1 x = (if x = dest then mem src else usbram_byte ram x)" for x
    using True unfolding ram1_def usbram_byte_upd Wlo Whi
    by (auto simp: usbram_byte_def; presburger)
  have b2: "usbram_byte ram2 x =
      (if dest + 1 \<le> x \<and> x < dest + 1 + 2 * ((n - 1) div 2) then mem (src + (x - dest)) else usbram_byte ram1 x)" for x
  proof -
    have "2 * (dest div 2 + 1) = dest + 1" using True by presburger
    then show ?thesis unfolding ram2_def usbram_byte_to_loop by (auto intro!: arg_cong [where f = mem])
  qed
  have b3: "usbram_byte (ram2(d2 := T)) x =
      (if x = 2 * d2 then mem s2 else usbram_byte ram2 x)" for x
    unfolding usbram_byte_upd Tlo Thi by (auto simp: usbram_byte_def; presburger)
  have d2: "2 * d2 = dest + 1 + 2 * ((n - 1) div 2)" using True unfolding d2_def by presburger
  show ?thesis
  proof (cases "(n - 1) mod 2 = 1")
    case odd: True
    have n: "dest + n = dest + 1 + 2 * ((n - 1) div 2) + 1" using True odd by presburger
    show ?thesis unfolding res using odd True
      by (auto simp: b3 b2 b1 d2 n s2_def intro!: arg_cong [where f = mem])
  next
    case even: False
    have n: "dest + n = dest + 1 + 2 * ((n - 1) div 2)" using True even by presburger
    show ?thesis unfolding res using even True
      by (auto simp: b2 b1 n intro!: arg_cong [where f = mem])
  qed
next
  case False
  define ram2 where "ram2 = fst (to_usbram_loop (n div 2) ram mem (dest div 2) src)"
  define d2 where "d2 = dest div 2 + n div 2"
  define s2 where "s2 = src + 2 * (n div 2)"
  define T :: usb_uint where "T = (ram2 d2 AND NOT 0x00ff) OR ucast (mem s2)"
  have loop: "to_usbram_loop (n div 2) ram mem (dest div 2) src = (ram2, d2, s2)"
    using to_usbram_loop_snd [of "n div 2" ram mem "dest div 2" src]
    by (simp add: ram2_def d2_def s2_def prod_eq_iff)
  have res: "memcpy_to_usbram ram mem dest src n = (if n mod 2 = 1 then ram2(d2 := T) else ram2)"
    unfolding memcpy_to_usbram_def Let_def
    by (simp only: False if_False prod.case simp_thms loop T_def)
  have Tlo: "ucast T = mem s2" unfolding T_def by (rule trail_byte_lo)
  have Thi: "(ucast (drop_bit 8 T) :: uint8_t) = ucast (drop_bit 8 (ram2 d2))" unfolding T_def by (rule trail_byte_hi)
  show ?thesis
  proof (cases "n = 0")
    case True
    then show ?thesis unfolding res ram2_def by auto
  next
    case n0: False
    with False have al: "2 * (dest div 2) = dest" by presburger
    have b2: "usbram_byte ram2 x =
      (if dest \<le> x \<and> x < dest + 2 * (n div 2) then mem (src + (x - dest)) else usbram_byte ram x)" for x
      unfolding ram2_def usbram_byte_to_loop al by simp
    have b3: "usbram_byte (ram2(d2 := T)) x =
      (if x = 2 * d2 then mem s2 else usbram_byte ram2 x)" for x
      unfolding usbram_byte_upd Tlo Thi by (auto simp: usbram_byte_def; presburger)
    have d2: "2 * d2 = dest + 2 * (n div 2)" using al unfolding d2_def by presburger
    show ?thesis
    proof (cases "n mod 2 = 1")
      case odd: True
      have n: "dest + n = dest + 2 * (n div 2) + 1" using odd by presburger
      show ?thesis unfolding res using odd
        by (auto simp: b3 b2 d2 n s2_def intro!: arg_cong [where f = mem])
    next
      case even: False
      have n: "dest + n = dest + 2 * (n div 2)" using even by presburger
      show ?thesis unfolding res using even
        by (auto simp: b2 n intro!: arg_cong [where f = mem])
    qed
  qed
qed

lemma from_usbram_loop_snd: "snd (from_usbram_loop k mem ram d s) = (d + 2 * k, s + k)"
  by (induction k arbitrary: mem d s) (simp_all add: Let_def)

lemma from_usbram_loop_fst:
  "fst (from_usbram_loop k mem ram d s) x =
     (if d \<le> x \<and> x < d + 2 * k then usbram_byte ram (2 * s + (x - d)) else mem x)"
proof (induction k arbitrary: mem d s)
  case 0
  show ?case by auto
next
  case (Suc k)
  define mem1 where "mem1 = (mem(d := ucast (ram s)))(d + 1 := ucast (drop_bit 8 (ram s)))"
  have step: "from_usbram_loop (Suc k) mem ram d s = from_usbram_loop k mem1 ram (d + 2) (s + 1)"
    by (simp only: from_usbram_loop.simps Let_def mem1_def read_lo read_hi)
  have ih: "fst (from_usbram_loop (Suc k) mem ram d s) x =
      (if d + 2 \<le> x \<and> x < d + 2 + 2 * k then usbram_byte ram (2 * (s + 1) + (x - (d + 2))) else mem1 x)"
    unfolding step by (rule Suc.IH)
  have b0: "usbram_byte ram (2 * s) = ucast (ram s)" by (simp add: usbram_byte_def)
  have b1: "usbram_byte ram (2 * s + 1) = ucast (drop_bit 8 (ram s))"
  proof -
    have "(2 * s + 1) mod 2 \<noteq> 0" "(2 * s + 1) div 2 = s" by presburger+
    then show ?thesis by (simp add: usbram_byte_def)
  qed
  have m1: "mem1 x = (if x = d then usbram_byte ram (2 * s) else if x = d + 1 then usbram_byte ram (2 * s + 1) else mem x)"
    unfolding mem1_def b0 b1 by auto
  consider (lo) "x < d" | (c0) "x = d" | (c1) "x = d + 1"
    | (mid) "d + 2 \<le> x" "x < d + 2 + 2 * k" | (hi) "d + 2 + 2 * k \<le> x"
    by atomize_elim arith
  then show ?case
  proof cases
    case lo
    then show ?thesis unfolding ih m1 by auto
  next
    case c0
    then show ?thesis unfolding ih m1 by auto
  next
    case c1
    then show ?thesis unfolding ih m1 by auto
  next
    case mid
    then have e: "2 * (s + 1) + (x - (d + 2)) = 2 * s + (x - d)" by arith
    from mid show ?thesis unfolding ih e by auto
  next
    case hi
    then show ?thesis unfolding ih m1 by auto
  qed
qed

lemma memcpy_from_usbram_apply:
  "memcpy_from_usbram mem ram dest src n x =
     (if dest \<le> x \<and> x < dest + n then usbram_byte ram (src + (x - dest)) else mem x)"
proof (cases "src mod 2 \<noteq> 0 \<and> n \<noteq> 0")
  case True
  define mem1 where "mem1 = mem(dest := ucast (drop_bit 8 (ram (src div 2))))"
  define mem2 where "mem2 = fst (from_usbram_loop ((n - 1) div 2) mem1 ram (dest + 1) (src div 2 + 1))"
  define d2 where "d2 = dest + 1 + 2 * ((n - 1) div 2)"
  define s2 where "s2 = src div 2 + 1 + (n - 1) div 2"
  have loop: "from_usbram_loop ((n - 1) div 2) mem1 ram (dest + 1) (src div 2 + 1) = (mem2, d2, s2)"
    using from_usbram_loop_snd [of "(n - 1) div 2" mem1 ram "dest + 1" "src div 2 + 1"]
    by (simp add: mem2_def d2_def s2_def prod_eq_iff)
  have res: "memcpy_from_usbram mem ram dest src n =
      (if (n - 1) mod 2 = 1 then mem2(d2 := ucast (ram s2)) else mem2)"
    unfolding memcpy_from_usbram_def Let_def
    by (simp only: True if_True prod.case simp_thms loop [unfolded mem1_def])
  have hib: "usbram_byte ram src = ucast (drop_bit 8 (ram (src div 2)))"
    using True by (simp add: usbram_byte_def)
  have m1: "mem1 y = (if y = dest then usbram_byte ram src else mem y)" for y
    unfolding mem1_def hib by simp
  have s1: "2 * (src div 2 + 1) = src + 1" using True by presburger
  have m2: "mem2 y = (if dest + 1 \<le> y \<and> y < dest + 1 + 2 * ((n - 1) div 2)
       then usbram_byte ram (src + 1 + (y - (dest + 1))) else mem1 y)" for y
    unfolding mem2_def from_usbram_loop_fst s1 by simp
  have lob: "usbram_byte ram (src + 1 + 2 * ((n - 1) div 2)) = ucast (ram s2)"
  proof -
    have "(src + 1 + 2 * ((n - 1) div 2)) mod 2 = 0" "(src + 1 + 2 * ((n - 1) div 2)) div 2 = s2"
      using True unfolding s2_def by presburger+
    then show ?thesis by (simp add: usbram_byte_def)
  qed
  consider (lo) "x < dest" | (c0) "x = dest"
    | (mid) "dest + 1 \<le> x" "x < dest + 1 + 2 * ((n - 1) div 2)"
    | (last) "x = dest + 1 + 2 * ((n - 1) div 2)" | (hi) "dest + 1 + 2 * ((n - 1) div 2) < x"
    by atomize_elim arith
  then show ?thesis
  proof cases
    case lo
    then show ?thesis unfolding res d2_def using True by (auto simp: m2 m1)
  next
    case c0
    then show ?thesis unfolding res d2_def using True by (auto simp: m2 m1)
  next
    case mid
    then have e: "src + 1 + (x - (dest + 1)) = src + (x - dest)" by arith
    have lt: "x < dest + n" using mid True by presburger
    have "mem2 x = usbram_byte ram (src + (x - dest))" using mid unfolding m2 e by simp
    with mid lt show ?thesis unfolding res d2_def by auto
  next
    case last
    then have e: "src + (x - dest) = src + 1 + 2 * ((n - 1) div 2)" by arith
    show ?thesis
    proof (cases "(n - 1) mod 2 = 1")
      case odd: True
      then have "x < dest + n" using last True by presburger
      with last odd show ?thesis unfolding res d2_def e lob by auto
    next
      case even: False
      then have "\<not> x < dest + n" using last True by presburger
      with last even show ?thesis unfolding res d2_def by (auto simp: m2 m1)
    qed
  next
    case hi
    then have "\<not> x < dest + n" using True by presburger
    with hi show ?thesis unfolding res d2_def by (auto simp: m2 m1)
  qed
next
  case False
  define mem2 where "mem2 = fst (from_usbram_loop (n div 2) mem ram dest (src div 2))"
  define d2 where "d2 = dest + 2 * (n div 2)"
  define s2 where "s2 = src div 2 + n div 2"
  have loop: "from_usbram_loop (n div 2) mem ram dest (src div 2) = (mem2, d2, s2)"
    using from_usbram_loop_snd [of "n div 2" mem ram dest "src div 2"]
    by (simp add: mem2_def d2_def s2_def prod_eq_iff)
  have res: "memcpy_from_usbram mem ram dest src n =
      (if n mod 2 = 1 then mem2(d2 := ucast (ram s2)) else mem2)"
    unfolding memcpy_from_usbram_def Let_def
    by (simp only: False if_False prod.case simp_thms loop)
  show ?thesis
  proof (cases "n = 0")
    case True
    then show ?thesis unfolding res mem2_def by auto
  next
    case n0: False
    with False have al: "2 * (src div 2) = src" by presburger
    have m2: "mem2 y = (if dest \<le> y \<and> y < dest + 2 * (n div 2)
         then usbram_byte ram (src + (y - dest)) else mem y)" for y
      unfolding mem2_def from_usbram_loop_fst al by simp
    have lob: "usbram_byte ram (src + 2 * (n div 2)) = ucast (ram s2)"
    proof -
      have "(src + 2 * (n div 2)) mod 2 = 0" "(src + 2 * (n div 2)) div 2 = s2"
        using al unfolding s2_def by presburger+
      then show ?thesis by (simp add: usbram_byte_def)
    qed
    consider (lo) "x < dest" | (mid) "dest \<le> x" "x < dest + 2 * (n div 2)"
      | (last) "x = dest + 2 * (n div 2)" | (hi) "dest + 2 * (n div 2) < x"
      by atomize_elim arith
    then show ?thesis
    proof cases
      case lo
      then show ?thesis unfolding res d2_def by (auto simp: m2)
    next
      case mid
      have "x < dest + n" using mid by presburger
      with mid show ?thesis unfolding res d2_def by (auto simp: m2)
    next
      case last
      then have e: "src + (x - dest) = src + 2 * (n div 2)" by arith
      show ?thesis
      proof (cases "n mod 2 = 1")
        case odd: True
        then have "x < dest + n" using last by presburger
        with last odd show ?thesis unfolding res d2_def e lob by auto
      next
        case even: False
        then have "\<not> x < dest + n" using last by presburger
        with last even show ?thesis unfolding res d2_def by (auto simp: m2)
      qed
    next
      case hi
      then have "\<not> x < dest + n" by presburger
      with hi show ?thesis unfolding res d2_def by (auto simp: m2)
    qed
  qed
qed




text \<open>
  C7. Writing \<open>n\<close> bytes with \<^verbatim>\<open>memcpy_to_usbram\<close> at a packet-memory offset (even or odd) and
  reading \<open>n\<close> bytes back from the same offset with \<^verbatim>\<open>memcpy_from_usbram\<close> gives the original
  bytes, for every \<open>n\<close> (so for every \<open>n\<close> up to the maximum packet size), whatever the
  packet memory held and wherever the bytes are read to.
\<close>

theorem memcpy_usbram_roundtrip:
  "map (memcpy_from_usbram mem' (memcpy_to_usbram ram mem off src n) dst off n) [dst..<dst + n] =
   map mem [src..<src + n]"
  by (simp add: list_eq_iff_nth_eq memcpy_from_usbram_apply usbram_byte_memcpy_to)

text \<open>
  C8. \<^verbatim>\<open>memcpy_to_usbram\<close> of \<open>n\<close> bytes at offset \<open>dest\<close> leaves every byte of packet memory
  outside \<open>[dest, dest + n)\<close> as it was, the other half of the two boundary words included.
\<close>

theorem memcpy_to_usbram_frame:
  "a < dest \<or> dest + n \<le> a \<Longrightarrow>
   usbram_byte (memcpy_to_usbram ram mem dest src n) a = usbram_byte ram a"
  by (auto simp: usbram_byte_memcpy_to)

theorem memcpy_to_usbram_frame_witness:
  "usbram_byte (memcpy_to_usbram (\<lambda>_. 0xABCD) (\<lambda>a. of_nat a) 3 0 4) 2 = 0xCD \<and>
   usbram_byte (memcpy_to_usbram (\<lambda>_. 0xABCD) (\<lambda>a. of_nat a) 3 0 4) 7 = 0xAB"
  using memcpy_to_usbram_frame [of 2 3 4 "\<lambda>_. 0xABCD" "\<lambda>a. of_nat a" 0]
        memcpy_to_usbram_frame [of 7 3 4 "\<lambda>_. 0xABCD" "\<lambda>a. of_nat a" 0]
  by (simp add: usbram_byte_def)


section \<open>Suspend and remote wake\<close>

lemma usb_interrupts_simps [simp]:
  "usb_interrupts cfg [] s = s"
  "usb_interrupts cfg ((status, state) # irqs) s =
     usb_interrupts cfg irqs (usb_interrupt cfg status state s)"
  by (simp_all add: usb_interrupts_def)

lemma usb_interrupt_causes:
  "usb_interrupt cfg (istr_none\<lparr>ISTR_RESET := True\<rparr>) state s = usb_reset cfg s"
  "CONFIG_USB_SUSPEND cfg \<Longrightarrow>
     usb_interrupt cfg (istr_none\<lparr>ISTR_WKUP := True\<rparr>) state s = usb_resume s"
  "CONFIG_USB_SUSPEND cfg \<Longrightarrow> CONFIG_USB_REMOTE_WAKEUP cfg \<Longrightarrow> usb_wake_done s = 0 \<Longrightarrow>
     usb_interrupt cfg (istr_none\<lparr>ISTR_ESOF := True\<rparr>) state s = esof_countdown state s"
  "0 < USB_EP_COUNT cfg \<Longrightarrow>
     usb_interrupt cfg (istr_none\<lparr>ISTR_CTR := True, ISTR_DIR := True\<rparr>) state s = ep0_rx cfg s"
  "0 < USB_EP_COUNT cfg \<Longrightarrow>
     usb_interrupt cfg (istr_none\<lparr>ISTR_CTR := True\<rparr>) state s = ep0_tx cfg s"
  by (simp_all add: usb_interrupt_def istr_none_def call_ep_rx_def call_ep_tx_def Let_def)

lemma usb_wake_suspended_state:
  "usb_wake test_config suspended_state =
     suspended_state\<lparr>usb_wake_done := 0, esof_count := 3, CNTR_RESUME := True, CNTR_ESOFM := True,
                      hw := (hw suspended_state)\<lparr>ext := 1\<rparr>\<rparr>"
  by (simp add: usb_wake_def atomic_read_clear_def suspended_state_def test_state_def test_config_def)

lemma waking_state_fields:
  "\<not> CNTR_FSUSP waking_state" "usb_wake_done waking_state = 0" "esof_count waking_state = 1"
  "CNTR_RESUME waking_state" "CNTR_ESOFM waking_state"
proof -
  have c: "CONFIG_USB_SUSPEND test_config" "CONFIG_USB_REMOTE_WAKEUP test_config"
    by (simp_all add: test_config_def)
  have e: "waking_state =
      esof_countdown 0 (esof_countdown 0 (usb_resume (usb_wake test_config suspended_state)))"
    unfolding waking_state_def usb_interrupts_simps usb_interrupt_causes(2) [OF c(1)]
    by (simp add: usb_interrupt_causes(3) [OF c] esof_countdown_def usb_resume_def
        usb_wake_suspended_state Let_def)
  show "\<not> CNTR_FSUSP waking_state" "usb_wake_done waking_state = 0" "esof_count waking_state = 1"
    "CNTR_RESUME waking_state" "CNTR_ESOFM waking_state"
    unfolding e usb_wake_suspended_state
    by (simp_all add: esof_countdown_def usb_resume_def suspended_state_def Let_def)
qed

lemma esof_countdown_failed_wake:
  "esof_count s = 1 \<Longrightarrow>
   usb_wake_done (esof_countdown 3 s) = 1 \<and> CNTR_FSUSP (esof_countdown 3 s) \<and>
   \<not> CNTR_RESUME (esof_countdown 3 s) \<and> \<not> CNTR_ESOFM (esof_countdown 3 s)"
  by (simp add: esof_countdown_def usb_suspend_def Let_def)

text \<open>
  C9. \<^verbatim>\<open>usb_is_suspended\<close> reads the suspend bit and then the wake flag. When the ESOF
  interrupt that ends a failed wake attempt (line state 3) is served between the two reads,
  the call returns 0, although the device is awake at no time: a call that is not
  interrupted returns 1 in the state before that interrupt, where the wake attempt is
  pending, and in the state after it, where the suspend bit is set again.
\<close>

theorem usb_is_suspended_interrupted_reports_awake:
  "\<not> CNTR_FSUSP waking_state \<and> usb_wake_done waking_state = 0 \<and>
   usb_is_suspended test_config [] waking_state = 1 \<and>
   CNTR_FSUSP (usb_interrupts test_config [(istr_none\<lparr>ISTR_ESOF := True\<rparr>, 3)] waking_state) \<and>
   usb_wake_done (usb_interrupts test_config [(istr_none\<lparr>ISTR_ESOF := True\<rparr>, 3)] waking_state) = 1 \<and>
   usb_is_suspended test_config []
     (usb_interrupts test_config [(istr_none\<lparr>ISTR_ESOF := True\<rparr>, 3)] waking_state) = 1 \<and>
   usb_is_suspended test_config [(istr_none\<lparr>ISTR_ESOF := True\<rparr>, 3)] waking_state = 0"
proof -
  have c: "CONFIG_USB_SUSPEND test_config" "CONFIG_USB_REMOTE_WAKEUP test_config"
    by (simp_all add: test_config_def)
  have e: "usb_interrupts test_config [(istr_none\<lparr>ISTR_ESOF := True\<rparr>, 3)] waking_state =
           esof_countdown 3 waking_state"
    unfolding usb_interrupts_simps by (rule usb_interrupt_causes(3) [OF c waking_state_fields(2)])
  note f = esof_countdown_failed_wake [OF waking_state_fields(3)]
  have 1: "usb_is_suspended test_config [] waking_state = 1"
    by (simp add: usb_is_suspended_def waking_state_fields c)
  have 2: "usb_is_suspended test_config [] (esof_countdown 3 waking_state) = 1"
    by (simp add: usb_is_suspended_def f)
  have 3: "usb_is_suspended test_config [(istr_none\<lparr>ISTR_ESOF := True\<rparr>, 3)] waking_state = 0"
    unfolding usb_is_suspended_def e by (simp add: waking_state_fields f)
  from waking_state_fields f 1 2 3 show ?thesis unfolding e by simp
qed




section \<open>Control requests\<close>

lemmas usb_consts =
  USB_MAX_PACKET_SIZE_def USB_DT_DEVICE_SIZE_def USB_DIR_OUT_def USB_DIR_IN_def USB_TYPE_MASK_def
  USB_TYPE_VENDOR_def USB_RECIP_MASK_def USB_RECIP_INTERFACE_def USB_REQ_GET_STATUS_def
  USB_REQ_CLEAR_FEATURE_def USB_REQ_SET_FEATURE_def USB_REQ_SET_ADDRESS_def
  USB_REQ_GET_DESCRIPTOR_def USB_REQ_SET_CONFIGURATION_def
  USB_REQ_FEATURE_DEVICE_REMOTE_WAKEUP_def USB_REQ_GET_STATUS_SELF_POWERED_def
  USB_REQ_GET_STATUS_REMOTE_WAKEUP_def WEBUSB_REQ_GET_URL_def USB_DT_DEVICE_def
  USB_DT_CONFIGURATION_def USB_DT_STRING_def USB_DT_DEVICE_QUALIFIER_def USB_DT_BOS_def

lemma test_config_simps:
  "desc_mem test_config a = of_nat a"
  "USB_IFACE_COUNT test_config = 1" "USB_EP_COUNT test_config = 2" "USB_STR_COUNT test_config = 3"
  "USB_DESC_SIZE test_config = 9" "dev_desc test_config = 0x100" "usb_desc test_config = 0x200"
  "usb_strings test_config i = (if i = 0 then 0x364 else if i = 1 then 0x404 else 0x640)"
  "bos_ctx test_config = None" "usb_serialno_desc test_config = None" "webusb_url test_config = None"
  "CONFIG_USB_SELF_POWERED test_config" "CONFIG_USB_REMOTE_WAKEUP test_config"
  "CONFIG_USB_SUSPEND test_config" "ep0_buf_tx test_config = 32" "ep0_buf_rx test_config = 64"
  "usb_iface_request test_config i rx h = (if rx then 1 else 0, h)"
  "usb_ep_tx test_config ep h = h" "usb_ep_rx test_config ep h = h"
  "usb_ep_event test_config ep evt h = h" "board_usb_wake test_config x = Suc x"
  by (simp_all add: test_config_def)

lemma test_state_simps:
  "usb_ram (hw (test_state r)) = r"
  "btable_ep (hw (test_state r)) ep = \<lparr>tx_addr = 64, tx_count = 0, rx_addr = 128, rx_count = 0x8400\<rparr>"
  "USB_EP (hw (test_state r)) ep =
     \<lparr>ep_control = True, stat_tx = EP_NAK, stat_rx = EP_VALID, status_out = False\<rparr>"
  "ext (hw (test_state r)) = 0"
  "USB_DADDR (test_state r) = 0x80" "\<not> CNTR_FSUSP (test_state r)"
  "set_addr (test_state r) = 0" "desc_left (test_state r) = 0" "desc_ptr (test_state r) = 0"
  "iface_next (test_state r) = 1" "remote_wakeup_enabled (test_state r) = 0"
  "usb_wake_done (test_state r) = 1" "esof_count (test_state r) = 0"
  by (simp_all add: test_state_def)

lemma test_rx_words:
  "ep0_buf_rx_at test_config (test_state (setup_ram w0 w1 w2 w3)) 0 = w0"
  "ep0_buf_rx_at test_config (test_state (setup_ram w0 w1 w2 w3)) 1 = w1"
  "ep0_buf_rx_at test_config (test_state (setup_ram w0 w1 w2 w3)) (Suc 0) = w1"
  "ep0_buf_rx_at test_config (test_state (setup_ram w0 w1 w2 w3)) 2 = w2"
  "ep0_buf_rx_at test_config (test_state (setup_ram w0 w1 w2 w3)) 3 = w3"
  by (simp_all add: ep0_buf_rx_at_def test_config_def test_state_def setup_ram_def)


lemma ep0_buf_rx_at_soft [simp]:
  "ep0_buf_rx_at cfg (s\<lparr>desc_ptr := p\<rparr>) k = ep0_buf_rx_at cfg s k"
  "ep0_buf_rx_at cfg (s\<lparr>iface_next := i\<rparr>) k = ep0_buf_rx_at cfg s k"
  "ep0_buf_rx_at cfg (s\<lparr>set_addr := a\<rparr>) k = ep0_buf_rx_at cfg s k"
  "ep0_buf_rx_at cfg (s\<lparr>desc_left := l\<rparr>) k = ep0_buf_rx_at cfg s k"
  by (simp_all add: ep0_buf_rx_at_def)

lemma ep0_rx_set_address:
  assumes "ep0_buf_rx_at cfg s 0 = USB_DIR_OUT OR push_bit 8 USB_REQ_SET_ADDRESS"
  shows "ep0_rx cfg s =
     s\<lparr>desc_ptr := 0, iface_next := of_nat (USB_IFACE_COUNT cfg),
       set_addr := uint (ep0_buf_rx_at cfg s 1 AND 0xff),
       hw := STM32_TOGGLE_EP 0 EP_TX_RX_MASK EP_TX_RX_VALID False (set_tx_count0 0 (hw s))\<rparr>"
  using assms
  by (simp add: ep0_rx_def ep0_rx_dispatch_def ep0_rx_standard_def Let_def usb_consts)

lemma ep0_tx_set_addr:
  "set_addr (ep0_tx cfg s) = 0"
  "set_addr s = 0 \<Longrightarrow> USB_DADDR (ep0_tx cfg s) = USB_DADDR s"
  "set_addr s \<noteq> 0 \<Longrightarrow> USB_DADDR (ep0_tx cfg s) = word_of_int (set_addr s OR 0x80)"
  by (simp_all add: ep0_tx_def Let_def split: prod.split)

lemma word_of_int_uint_or: "(word_of_int (uint (w :: usb_uint) OR 0x80) :: usb_uint) = w OR 0x80"
  by (rule bit_word_eqI) (auto simp: bit_simps)

text \<open>
  C2 (amended). After a SET_ADDRESS request, \<^verbatim>\<open>ep0_rx\<close> leaves the address register as it was
  and records the low byte of \<^verbatim>\<open>wValue\<close> as pending. The first \<^verbatim>\<open>ep0_tx\<close> after it writes that
  byte, with the enable bit, to the register when the byte is not zero, and leaves the
  register unchanged when it is zero (zero is how the code says that nothing is pending); it
  clears the pending value, so a further \<^verbatim>\<open>ep0_tx\<close> does not write the register again.
\<close>

theorem set_address_deferred:
  assumes "ep0_buf_rx_at cfg s 0 = USB_DIR_OUT OR push_bit 8 USB_REQ_SET_ADDRESS"
  shows "USB_DADDR (ep0_rx cfg s) = USB_DADDR s \<and>
         set_addr (ep0_rx cfg s) = uint (ep0_buf_rx_at cfg s 1 AND 0xff) \<and>
         USB_DADDR (ep0_tx cfg (ep0_rx cfg s)) =
           (if ep0_buf_rx_at cfg s 1 AND 0xff = 0 then USB_DADDR s
            else (ep0_buf_rx_at cfg s 1 AND 0xff) OR 0x80) \<and>
         set_addr (ep0_tx cfg (ep0_rx cfg s)) = 0 \<and>
         USB_DADDR (ep0_tx cfg (ep0_tx cfg (ep0_rx cfg s))) = USB_DADDR (ep0_tx cfg (ep0_rx cfg s))"
proof -
  have a: "USB_DADDR (ep0_rx cfg s) = USB_DADDR s"
    and b: "set_addr (ep0_rx cfg s) = uint (ep0_buf_rx_at cfg s 1 AND 0xff)"
    by (simp_all add: ep0_rx_set_address [OF assms])
  have c: "USB_DADDR (ep0_tx cfg (ep0_rx cfg s)) =
           (if ep0_buf_rx_at cfg s 1 AND 0xff = 0 then USB_DADDR s
            else (ep0_buf_rx_at cfg s 1 AND 0xff) OR 0x80)"
  proof (cases "ep0_buf_rx_at cfg s 1 AND 0xff = 0")
    case True
    then have "set_addr (ep0_rx cfg s) = 0" by (simp add: b)
    from ep0_tx_set_addr(2) [OF this] True a show ?thesis by simp
  next
    case False
    then have "set_addr (ep0_rx cfg s) \<noteq> 0" unfolding b by (simp add: uint_0_iff)
    from ep0_tx_set_addr(3) [OF this] False show ?thesis by (simp add: b word_of_int_uint_or)
  qed
  have d: "set_addr (ep0_tx cfg (ep0_rx cfg s)) = 0" by (rule ep0_tx_set_addr(1))
  from ep0_tx_set_addr(2) [OF d] a b c d show ?thesis by simp
qed

theorem set_address_deferred_witness:
  "USB_DADDR (ep0_tx test_config (ep0_rx test_config (test_state (setup_ram 0x0500 0x0005 0 0)))) = 0x85 \<and>
   USB_DADDR (ep0_rx test_config (test_state (setup_ram 0x0500 0x0005 0 0))) = 0x80"
proof -
  have r: "ep0_buf_rx_at test_config (test_state (setup_ram 0x0500 0x0005 0 0)) 0 =
           USB_DIR_OUT OR push_bit 8 USB_REQ_SET_ADDRESS"
       "ep0_buf_rx_at test_config (test_state (setup_ram 0x0500 0x0005 0 0)) 1 = 5"
       "USB_DADDR (test_state (setup_ram 0x0500 0x0005 0 0)) = 0x80"
    by (simp_all add: ep0_buf_rx_at_def test_config_def test_state_def setup_ram_def usb_consts)
  from set_address_deferred [OF r(1)] show ?thesis unfolding r(2) r(3) by simp
qed

text \<open>
  C2 as stated fails for SET_ADDRESS with address 0 on a device that holds address 5: after
  the status stage the register still holds 5.
\<close>

theorem set_address_zero_counterexample:
  "ep0_buf_rx_at test_config ((test_state (setup_ram 0x0500 0x0000 0 0))\<lparr>USB_DADDR := 0x85\<rparr>) 0
     = USB_DIR_OUT OR push_bit 8 USB_REQ_SET_ADDRESS \<and>
   ep0_buf_rx_at test_config ((test_state (setup_ram 0x0500 0x0000 0 0))\<lparr>USB_DADDR := 0x85\<rparr>) 1 = 0 \<and>
   USB_DADDR (ep0_tx test_config (ep0_rx test_config
      ((test_state (setup_ram 0x0500 0x0000 0 0))\<lparr>USB_DADDR := 0x85\<rparr>))) = 0x85 \<and>
   USB_DADDR (ep0_tx test_config (ep0_rx test_config
      ((test_state (setup_ram 0x0500 0x0000 0 0))\<lparr>USB_DADDR := 0x85\<rparr>))) AND 0x7f \<noteq>
     ep0_buf_rx_at test_config ((test_state (setup_ram 0x0500 0x0000 0 0))\<lparr>USB_DADDR := 0x85\<rparr>) 1
       AND 0x7f"
proof -
  let ?s = "(test_state (setup_ram 0x0500 0x0000 0 0))\<lparr>USB_DADDR := 0x85\<rparr>"
  have r: "ep0_buf_rx_at test_config ?s 0 = USB_DIR_OUT OR push_bit 8 USB_REQ_SET_ADDRESS"
       "ep0_buf_rx_at test_config ?s 1 = 0"
    by (simp_all add: ep0_buf_rx_at_def test_config_def test_state_def setup_ram_def usb_consts)
  have "USB_DADDR (ep0_tx test_config (ep0_rx test_config ?s)) = 0x85"
    unfolding ep0_rx_set_address [OF r(1)] r(2)
    by (simp add: ep0_tx_def Let_def test_state_def test_config_def split: prod.split)
  with r show ?thesis by simp
qed

lemma toggle_ep_stat [simp]:
  "stat_tx (USB_EP (STM32_TOGGLE_EP n EP_TX_RX_MASK v f h) n) = val_tx v"
  "stat_rx (USB_EP (STM32_TOGGLE_EP n EP_TX_RX_MASK v f h) n) = val_rx v"
  "stat_tx (USB_EP (STM32_TOGGLE_EP n EP_TX_MASK v f h) n) = val_tx v"
  "stat_rx (USB_EP (STM32_TOGGLE_EP n EP_TX_MASK v f h) n) = stat_rx (USB_EP h n)"
  "status_out (USB_EP (STM32_TOGGLE_EP n m v f h) n) = f"
  by (simp_all add: STM32_TOGGLE_EP_def Let_def)

lemma toggle_ep_other [simp]:
  "usb_ram (STM32_TOGGLE_EP n m v f h) = usb_ram h"
  "btable_ep (STM32_TOGGLE_EP n m v f h) = btable_ep h"
  "ext (STM32_TOGGLE_EP n m v f h) = ext h"
  by (simp_all add: STM32_TOGGLE_EP_def Let_def)

lemma set_tx_count0_simps [simp]:
  "usb_ram (set_tx_count0 v h) = usb_ram h"
  "USB_EP (set_tx_count0 v h) = USB_EP h"
  "ext (set_tx_count0 v h) = ext h"
  "tx_count (btable_ep (set_tx_count0 v h) 0) = v"
  by (simp_all add: set_tx_count0_def)

lemma unknown_req_stat:
  "stat_tx (USB_EP (hw (unknown_req s)) 0) = EP_STALL \<and> stat_rx (USB_EP (hw (unknown_req s)) 0) = EP_VALID"
  by (simp add: unknown_req_def EP_RX_VALID_TX_STALL_def)

lemma ep0_send_descriptor_cursor:
  "desc_ptr (ep0_send_descriptor cfg desc len f s) =
     (if int USB_MAX_PACKET_SIZE \<le> min (uint (ep0_buf_rx_at cfg s 3)) len
      then desc + USB_MAX_PACKET_SIZE else desc_ptr s)"
  "desc_left (ep0_send_descriptor cfg desc len f s) =
     (if int USB_MAX_PACKET_SIZE \<le> min (uint (ep0_buf_rx_at cfg s 3)) len
      then min (uint (ep0_buf_rx_at cfg s 3)) len - int USB_MAX_PACKET_SIZE else desc_left s)"
  "iface_next (ep0_send_descriptor cfg desc len f s) = iface_next s"
  "set_addr (ep0_send_descriptor cfg desc len f s) = set_addr s"
  by (simp_all add: ep0_send_descriptor_def Let_def split: prod.split)

lemma ep0_send_descriptor_regs:
  "status_out (USB_EP (hw (ep0_send_descriptor cfg desc len f s)) 0) =
     (desc_left (ep0_send_descriptor cfg desc len f s) = 0)"
  "tx_count (btable_ep (hw (ep0_send_descriptor cfg desc len f s)) 0) =
     word_of_int (min (min (uint (ep0_buf_rx_at cfg s 3)) len) (int USB_MAX_PACKET_SIZE))"
  "stat_tx (USB_EP (hw (ep0_send_descriptor cfg desc len f s)) 0) = EP_VALID"
  "stat_rx (USB_EP (hw (ep0_send_descriptor cfg desc len f s)) 0) = EP_VALID"
  by (simp_all add: ep0_send_descriptor_def Let_def EP_TX_RX_VALID_def min_def split: prod.split)

lemma get_descriptor_unsupported:
  "type = USB_DT_DEVICE_QUALIFIER \<or> (type = USB_DT_STRING \<and> USB_STR_COUNT cfg \<le> unat idx)
   \<Longrightarrow> get_descriptor cfg type idx = None"
  by (auto simp: get_descriptor_def usb_consts)

lemma ep0_rx_dispatch_get_descriptor:
  assumes "ep0_buf_rx_at cfg s 0 = USB_DIR_IN OR push_bit 8 USB_REQ_GET_DESCRIPTOR"
  shows "ep0_rx_dispatch cfg s =
     (let s' = s\<lparr>desc_ptr := 0, iface_next := of_nat (USB_IFACE_COUNT cfg)\<rparr>;
          type = (ucast (drop_bit 8 (ep0_buf_rx_at cfg s 1)) :: uint8_t);
          idx = (ucast (ep0_buf_rx_at cfg s 1 AND 0xff) :: uint8_t)
      in case get_descriptor cfg type idx of
           None \<Rightarrow> Inl s'
         | Some (desc, len) \<Rightarrow>
             Inr (ep0_send_descriptor cfg desc len
                   (if type = USB_DT_CONFIGURATION then of_nat (USB_DESC_SIZE cfg) else 0) s'))"
  using assms
  by (simp add: ep0_rx_dispatch_def ep0_rx_standard_def Let_def usb_consts)

text \<open>The fields of a setup packet, as conditions on its first word.\<close>

lemma word16_bytes: "(w :: 16 word) = (w AND 0xff) OR push_bit 8 (drop_bit 8 w)"
  unfolding const_ff
proof (rule bit_word_eqI)
  fix n assume "n < LENGTH(16)"
  then show "bit w n = bit (w AND mask 8 OR push_bit 8 (drop_bit 8 w)) n"
    by (cases "n < 8") (auto simp: bit_simps not_less)
qed

lemma ucast_8_16_8: "(ucast (ucast (c :: 8 word) :: 16 word) :: 8 word) = c"
  by (rule bit_word_eqI) (auto simp: bit_simps)

lemma ucast_16_8_16: "(ucast (ucast (x :: 16 word) :: 8 word) :: 16 word) = x AND 0xff"
  unfolding const_ff by (rule bit_word_eqI) (auto simp: bit_simps)

lemma drop8_byte: "drop_bit 8 (w :: 16 word) AND 0xff = drop_bit 8 w"
  unfolding const_ff by (rule bit_word_eqI) (auto simp: bit_simps dest: bit_imp_le_length)

lemma lo_byte_and: "(ucast ((w::16 word) AND 0xff) :: 8 word) AND c = ucast (w AND ucast c)"
  unfolding const_ff by (rule bit_word_eqI) (auto simp: bit_simps)

lemma and_byte: "((w::16 word) AND ucast (c :: 8 word)) AND 0xff = w AND ucast c"
  unfolding const_ff by (rule bit_word_eqI) (auto simp: bit_simps dest: bit_imp_le_length)

lemma byte_eq: "((ucast (x :: 16 word) :: 8 word) = c) = (x AND 0xff = ucast c)"
proof
  assume "(ucast x :: 8 word) = c"
  then have "(ucast (ucast x :: 8 word) :: 16 word) = ucast c" by simp
  then show "x AND 0xff = ucast c" by (simp only: ucast_16_8_16)
next
  assume "x AND 0xff = ucast c"
  then have "(ucast (ucast x :: 8 word) :: 16 word) = ucast c" by (simp only: ucast_16_8_16)
  then have "(ucast (ucast (ucast x :: 8 word) :: 16 word) :: 8 word) = ucast (ucast c :: 16 word)" by simp
  then show "(ucast x :: 8 word) = c" by (simp only: ucast_8_16_8)
qed

lemma lo_eq: "((ucast ((w::16 word) AND 0xff) :: 8 word) = c) = (w AND 0xff = ucast c)"
  unfolding byte_eq by (simp add: and.assoc)

lemma hi_eq: "((ucast (drop_bit 8 (w::16 word)) :: 8 word) = c) = (drop_bit 8 w = ucast c)"
  unfolding byte_eq drop8_byte by (rule refl)

lemma lo_and_eq: "((ucast ((w::16 word) AND 0xff) :: 8 word) AND c = d) = (w AND ucast c = ucast d)"
  unfolding lo_byte_and byte_eq and_byte by (rule refl)

lemma req_eq: "((w :: 16 word) = ucast (a :: 8 word) OR push_bit 8 (ucast (b :: 8 word))) =
   ((ucast (w AND 0xff) :: 8 word) = a \<and> (ucast (drop_bit 8 w) :: 8 word) = b)"
proof
  assume "w = ucast a OR push_bit 8 (ucast b)"
  then show "(ucast (w AND 0xff) :: 8 word) = a \<and> (ucast (drop_bit 8 w) :: 8 word) = b"
    using byte_pair_lo [of b a] byte_pair_hi [of b a] read_lo [of w]
    by (simp add: or.commute)
next
  assume "(ucast (w AND 0xff) :: 8 word) = a \<and> (ucast (drop_bit 8 w) :: 8 word) = b"
  then have "w AND 0xff = ucast a" "drop_bit 8 w = ucast b" by (simp_all only: lo_eq hi_eq)
  then show "w = ucast a OR push_bit 8 (ucast b)" using word16_bytes [of w] by simp
qed

lemma decode_conds:
  "((w :: 16 word) AND 0x1f = 0x01) = ((ucast (w AND 0xff) :: 8 word) AND 0x1f = 0x01)"
  "(w AND 0x60 = 0x40) = ((ucast (w AND 0xff) :: 8 word) AND 0x60 = 0x40)"
  "(w AND 0xff = 0) = ((ucast (w AND 0xff) :: 8 word) = 0)"
  "(w = 0x0680) = ((ucast (w AND 0xff) :: 8 word) = 0x80 \<and> (ucast (drop_bit 8 w) :: 8 word) = 0x06)"
  "(w = 0x0080) = ((ucast (w AND 0xff) :: 8 word) = 0x80 \<and> (ucast (drop_bit 8 w) :: 8 word) = 0x00)"
  "(drop_bit 8 w = 0x01) = ((ucast (drop_bit 8 w) :: 8 word) = 0x01)"
  "(drop_bit 8 w = 0x03) = ((ucast (drop_bit 8 w) :: 8 word) = 0x03)"
  "(drop_bit 8 w = 0x05) = ((ucast (drop_bit 8 w) :: 8 word) = 0x05)"
  "(drop_bit 8 w = 0x09) = ((ucast (drop_bit 8 w) :: 8 word) = 0x09)"
proof -
  show "(w AND 0x1f = 0x01) = ((ucast (w AND 0xff) :: 8 word) AND 0x1f = 0x01)"
    using lo_and_eq [of w "0x1f" "0x01"] by simp
  show "(w AND 0x60 = 0x40) = ((ucast (w AND 0xff) :: 8 word) AND 0x60 = 0x40)"
    using lo_and_eq [of w "0x60" "0x40"] by simp
  show "(w AND 0xff = 0) = ((ucast (w AND 0xff) :: 8 word) = 0)"
    using lo_eq [of w 0] by simp
  show "(w = 0x0680) = ((ucast (w AND 0xff) :: 8 word) = 0x80 \<and> (ucast (drop_bit 8 w) :: 8 word) = 0x06)"
    using req_eq [of w "0x80" "0x06"] by simp
  show "(w = 0x0080) = ((ucast (w AND 0xff) :: 8 word) = 0x80 \<and> (ucast (drop_bit 8 w) :: 8 word) = 0x00)"
    using req_eq [of w "0x80" "0x00"] by simp
  show "(drop_bit 8 w = 0x01) = ((ucast (drop_bit 8 w) :: 8 word) = 0x01)"
    using hi_eq [of w "0x01"] by simp
  show "(drop_bit 8 w = 0x03) = ((ucast (drop_bit 8 w) :: 8 word) = 0x03)"
    using hi_eq [of w "0x03"] by simp
  show "(drop_bit 8 w = 0x05) = ((ucast (drop_bit 8 w) :: 8 word) = 0x05)"
    using hi_eq [of w "0x05"] by simp
  show "(drop_bit 8 w = 0x09) = ((ucast (drop_bit 8 w) :: 8 word) = 0x09)"
    using hi_eq [of w "0x09"] by simp
qed

lemma get_descriptor_supported:
  "(get_descriptor cfg type idx = None) = (\<not> spec_descriptor_supported cfg type idx)"
  by (auto simp: get_descriptor_def spec_descriptor_supported_def usb_consts Let_def
      split: option.splits prod.splits)

lemma ep0_rx_standard_isl:
  assumes lo: "lo = (ucast (req AND 0xff) :: uint8_t)" and hi: "hi = (ucast (drop_bit 8 req) :: uint8_t)"
  shows "isl (ep0_rx_standard cfg req s) =
     (\<not> (if lo = 0x80 \<and> hi = 0x06
         then spec_descriptor_supported cfg (ucast (drop_bit 8 (ep0_buf_rx_at cfg s 1)))
                (ucast (ep0_buf_rx_at cfg s 1 AND 0xff))
         else if lo = 0x80 \<and> hi = 0x00
         then True
         else lo = 0x00 \<and>
           (hi = 0x05 \<or> hi = 0x09 \<or>
            ((hi = 0x01 \<or> hi = 0x03) \<and> CONFIG_USB_REMOTE_WAKEUP cfg \<and> ep0_buf_rx_at cfg s 1 = 0x01))))"
proof -
  have c: "(req = USB_DIR_IN OR push_bit 8 USB_REQ_GET_DESCRIPTOR) = (lo = 0x80 \<and> hi = 0x06)"
    "(req = USB_DIR_IN OR push_bit 8 USB_REQ_GET_STATUS) = (lo = 0x80 \<and> hi = 0x00)"
    "(req AND 0xff = USB_DIR_OUT) = (lo = 0)"
    "(drop_bit 8 req = USB_REQ_SET_FEATURE) = (hi = 0x03)"
    "(drop_bit 8 req = USB_REQ_CLEAR_FEATURE) = (hi = 0x01)"
    "(drop_bit 8 req = USB_REQ_SET_ADDRESS) = (hi = 0x05)"
    "(drop_bit 8 req = USB_REQ_SET_CONFIGURATION) = (hi = 0x09)"
    unfolding lo hi usb_consts using decode_conds [of req] by simp_all
  define gd where "gd = get_descriptor cfg (ucast (drop_bit 8 (ep0_buf_rx_at cfg s 1)))
                (ucast (ep0_buf_rx_at cfg s 1 AND 0xff))"
  define sup where "sup = spec_descriptor_supported cfg (ucast (drop_bit 8 (ep0_buf_rx_at cfg s 1)))
                (ucast (ep0_buf_rx_at cfg s 1 AND 0xff))"
  have g: "(gd = None) = (\<not> sup)" unfolding gd_def sup_def by (rule get_descriptor_supported)
  show ?thesis
    unfolding ep0_rx_standard_def c Let_def gd_def [symmetric] sup_def [symmetric]
    using g by (cases gd) (auto simp add: USB_REQ_FEATURE_DEVICE_REMOTE_WAKEUP_def split: prod.splits)
qed

lemma ep0_rx_vendor_isl:
  "isl (ep0_rx_vendor cfg req s) =
     (\<not> (webusb_url cfg \<noteq> None \<and> (ucast (drop_bit 8 req) :: uint8_t) = 0x01 \<and> ep0_buf_rx_at cfg s 2 = 0x02))"
  by (simp add: ep0_rx_vendor_def Let_def WEBUSB_REQ_GET_URL_def split: option.splits)

lemma ep0_rx_dispatch_isl:
  "isl (ep0_rx_dispatch cfg s) =
     (\<not> spec_request_supported cfg (hw s) (usb_read_setup_packet (ep0_buf_rx_at cfg s)))"
proof -
  define req where "req = ep0_buf_rx_at cfg s 0"
  define lo where "lo = (ucast (req AND 0xff) :: uint8_t)"
  define hi where "hi = (ucast (drop_bit 8 req) :: uint8_t)"
  define s' where "s' = s\<lparr>desc_ptr := 0, iface_next := of_nat (USB_IFACE_COUNT cfg)\<rparr>"
  have c: "(req AND USB_RECIP_MASK = USB_RECIP_INTERFACE) = (lo AND 0x1f = 0x01)"
    "(req AND USB_TYPE_MASK = USB_TYPE_VENDOR) = (lo AND 0x60 = 0x40)"
    unfolding lo_def usb_consts using decode_conds [of req] by simp_all
  have p: "usb_read_setup_packet (ep0_buf_rx_at cfg s) =
       \<lparr>bmRequestType = lo, bRequest = hi, wValue = ep0_buf_rx_at cfg s 1,
        wIndex = ep0_buf_rx_at cfg s 2, wLength = ep0_buf_rx_at cfg s 3\<rparr>"
    by (simp add: usb_read_setup_packet_def lo_def hi_def req_def)
  have d: "ep0_rx_dispatch cfg s =
      (if lo AND 0x1f = 0x01 \<and> unat (ucast (ep0_buf_rx_at cfg s 2 AND 0xff) :: uint8_t) < USB_IFACE_COUNT cfg
       then (let (ret, h) = usb_iface_request cfg (unat (ucast (ep0_buf_rx_at cfg s 2 AND 0xff) :: uint8_t)) True (hw s);
                 t = s'\<lparr>hw := h\<rparr>
             in if ret < 0 then Inl t
                else if ret = 1 then Inr (t\<lparr>iface_next := ucast (ep0_buf_rx_at cfg s 2 AND 0xff)\<rparr>)
                else Inr t)
       else if lo AND 0x60 = 0x40 then ep0_rx_vendor cfg req s'
       else ep0_rx_standard cfg req s')"
    unfolding ep0_rx_dispatch_def Let_def req_def [symmetric] c s'_def
    by (simp add: Let_def split: prod.splits)
  have r: "ep0_buf_rx_at cfg s' k = ep0_buf_rx_at cfg s k" for k by (simp add: s'_def)
  show ?thesis
    unfolding d p spec_request_supported_def spec_interface_request_def
    by (simp add: ep0_rx_vendor_isl ep0_rx_standard_isl [OF lo_def hi_def] r hi_def [symmetric]
        s'_def Let_def split: prod.splits)
qed

lemma ep0_rx_standard_valid:
  "ep0_rx_standard cfg req s = Inr t \<Longrightarrow>
   stat_tx (USB_EP (hw t) 0) = EP_VALID \<and> stat_rx (USB_EP (hw t) 0) = EP_VALID"
  by (auto simp add: ep0_rx_standard_def Let_def ep0_send_descriptor_regs EP_TX_RX_VALID_def
      split: if_splits option.splits prod.splits)

lemma ep0_rx_vendor_valid:
  "ep0_rx_vendor cfg req s = Inr t \<Longrightarrow>
   stat_tx (USB_EP (hw t) 0) = EP_VALID \<and> stat_rx (USB_EP (hw t) 0) = EP_VALID"
  by (auto simp add: ep0_rx_vendor_def Let_def ep0_send_descriptor_regs
      split: if_splits option.splits prod.splits)

lemma ep0_rx_dispatch_device:
  assumes "\<not> spec_interface_request cfg (usb_read_setup_packet (ep0_buf_rx_at cfg s))"
    and "ep0_rx_dispatch cfg s = Inr t"
  shows "stat_tx (USB_EP (hw t) 0) = EP_VALID \<and> stat_rx (USB_EP (hw t) 0) = EP_VALID"
proof -
  have c: "(ep0_buf_rx_at cfg s 0 AND USB_RECIP_MASK = USB_RECIP_INTERFACE) =
           ((ucast (ep0_buf_rx_at cfg s 0 AND 0xff) :: uint8_t) AND 0x1f = 0x01)"
    unfolding usb_consts using decode_conds [of "ep0_buf_rx_at cfg s 0"] by simp
  from assms(1) have n: "\<not> (ep0_buf_rx_at cfg s 0 AND USB_RECIP_MASK = USB_RECIP_INTERFACE \<and>
      unat (ucast (ep0_buf_rx_at cfg s 2 AND 0xff) :: uint8_t) < USB_IFACE_COUNT cfg)"
    unfolding c by (simp add: spec_interface_request_def usb_read_setup_packet_def)
  from assms(2) n show ?thesis
    by (auto simp add: ep0_rx_dispatch_def Let_def
        dest: ep0_rx_standard_valid ep0_rx_vendor_valid split: if_splits)
qed

lemma ep0_rx_dispatch_interface:
  assumes "spec_interface_request cfg (usb_read_setup_packet (ep0_buf_rx_at cfg s))"
    and "ep0_rx_dispatch cfg s = Inr t"
  shows "hw t = snd (usb_iface_request cfg (unat (ucast (ep0_buf_rx_at cfg s 2 AND 0xff) :: uint8_t)) True (hw s))"
proof -
  have c: "(ep0_buf_rx_at cfg s 0 AND USB_RECIP_MASK = USB_RECIP_INTERFACE) =
           ((ucast (ep0_buf_rx_at cfg s 0 AND 0xff) :: uint8_t) AND 0x1f = 0x01)"
    unfolding usb_consts using decode_conds [of "ep0_buf_rx_at cfg s 0"] by simp
  from assms(1) have n: "ep0_buf_rx_at cfg s 0 AND USB_RECIP_MASK = USB_RECIP_INTERFACE \<and>
      unat (ucast (ep0_buf_rx_at cfg s 2 AND 0xff) :: uint8_t) < USB_IFACE_COUNT cfg"
    unfolding c by (simp add: spec_interface_request_def usb_read_setup_packet_def)
  from assms(2) n show ?thesis
    by (auto simp add: ep0_rx_dispatch_def Let_def split: if_splits prod.splits)
qed

text \<open>
  C4 (amended). For every request that is unmatched at every dispatch stage (an interface
  request whose handler reports an error, a vendor request outside the vendor table, a
  standard request other than the supported ones, among them a GET_DESCRIPTOR for the
  device qualifier or for a string index out of range), \<^verbatim>\<open>ep0_rx\<close> puts the transmit direction
  of endpoint 0 into STALL and the receive direction into VALID, ready for the next SETUP.
  For every other request it does not: an interface request is left as its handler left the
  hardware, and the requests answered by \<^verbatim>\<open>ep0_rx\<close> itself leave both directions VALID.
\<close>

theorem unknown_request_stalls_tx:
  "(\<not> spec_request_supported cfg (hw s) (usb_read_setup_packet (ep0_buf_rx_at cfg s)) \<longrightarrow>
      stat_tx (USB_EP (hw (ep0_rx cfg s)) 0) = EP_STALL \<and>
      stat_rx (USB_EP (hw (ep0_rx cfg s)) 0) = EP_VALID) \<and>
   (spec_request_supported cfg (hw s) (usb_read_setup_packet (ep0_buf_rx_at cfg s)) \<longrightarrow>
      (if spec_interface_request cfg (usb_read_setup_packet (ep0_buf_rx_at cfg s))
       then hw (ep0_rx cfg s) =
              snd (usb_iface_request cfg (unat (ucast (ep0_buf_rx_at cfg s 2 AND 0xff) :: uint8_t)) True (hw s))
       else stat_tx (USB_EP (hw (ep0_rx cfg s)) 0) = EP_VALID \<and>
            stat_rx (USB_EP (hw (ep0_rx cfg s)) 0) = EP_VALID)) \<and>
   (ep0_buf_rx_at cfg s 0 = USB_DIR_IN OR push_bit 8 USB_REQ_GET_DESCRIPTOR \<and>
    (ucast (drop_bit 8 (ep0_buf_rx_at cfg s 1)) = USB_DT_DEVICE_QUALIFIER \<or>
     ucast (drop_bit 8 (ep0_buf_rx_at cfg s 1)) = USB_DT_STRING \<and>
     USB_STR_COUNT cfg \<le> unat (ucast (ep0_buf_rx_at cfg s 1 AND 0xff) :: uint8_t)) \<longrightarrow>
      stat_tx (USB_EP (hw (ep0_rx cfg s)) 0) = EP_STALL \<and>
      stat_rx (USB_EP (hw (ep0_rx cfg s)) 0) = EP_VALID)"
proof (intro conjI impI)
  assume "\<not> spec_request_supported cfg (hw s) (usb_read_setup_packet (ep0_buf_rx_at cfg s))"
  then have "isl (ep0_rx_dispatch cfg s)" by (simp add: ep0_rx_dispatch_isl)
  then obtain t where "ep0_rx_dispatch cfg s = Inl t" by (cases "ep0_rx_dispatch cfg s") simp_all
  then have e: "ep0_rx cfg s = unknown_req t" by (simp add: ep0_rx_def)
  show "stat_tx (USB_EP (hw (ep0_rx cfg s)) 0) = EP_STALL" "stat_rx (USB_EP (hw (ep0_rx cfg s)) 0) = EP_VALID"
    unfolding e using unknown_req_stat [of t] by simp_all
next
  assume "spec_request_supported cfg (hw s) (usb_read_setup_packet (ep0_buf_rx_at cfg s))"
  then have "\<not> isl (ep0_rx_dispatch cfg s)" by (simp add: ep0_rx_dispatch_isl)
  then obtain t where d: "ep0_rx_dispatch cfg s = Inr t" by (cases "ep0_rx_dispatch cfg s") simp_all
  then have e: "ep0_rx cfg s = t" by (simp add: ep0_rx_def)
  show "if spec_interface_request cfg (usb_read_setup_packet (ep0_buf_rx_at cfg s))
       then hw (ep0_rx cfg s) =
              snd (usb_iface_request cfg (unat (ucast (ep0_buf_rx_at cfg s 2 AND 0xff) :: uint8_t)) True (hw s))
       else stat_tx (USB_EP (hw (ep0_rx cfg s)) 0) = EP_VALID \<and>
            stat_rx (USB_EP (hw (ep0_rx cfg s)) 0) = EP_VALID"
    unfolding e using ep0_rx_dispatch_interface [OF _ d] ep0_rx_dispatch_device [OF _ d] by simp
next
  assume a: "ep0_buf_rx_at cfg s 0 = USB_DIR_IN OR push_bit 8 USB_REQ_GET_DESCRIPTOR \<and>
    (ucast (drop_bit 8 (ep0_buf_rx_at cfg s 1)) = USB_DT_DEVICE_QUALIFIER \<or>
     ucast (drop_bit 8 (ep0_buf_rx_at cfg s 1)) = USB_DT_STRING \<and>
     USB_STR_COUNT cfg \<le> unat (ucast (ep0_buf_rx_at cfg s 1 AND 0xff) :: uint8_t))"
  then have "get_descriptor cfg (ucast (drop_bit 8 (ep0_buf_rx_at cfg s 1)))
               (ucast (ep0_buf_rx_at cfg s 1 AND 0xff)) = None"
    by (intro get_descriptor_unsupported) simp
  with a have "ep0_rx_dispatch cfg s = Inl (s\<lparr>desc_ptr := 0, iface_next := of_nat (USB_IFACE_COUNT cfg)\<rparr>)"
    by (simp add: ep0_rx_dispatch_get_descriptor Let_def)
  then have e: "ep0_rx cfg s = unknown_req (s\<lparr>desc_ptr := 0, iface_next := of_nat (USB_IFACE_COUNT cfg)\<rparr>)"
    by (simp add: ep0_rx_def)
  show "stat_tx (USB_EP (hw (ep0_rx cfg s)) 0) = EP_STALL" "stat_rx (USB_EP (hw (ep0_rx cfg s)) 0) = EP_VALID"
    unfolding e using unknown_req_stat by blast+
qed

theorem unknown_request_stalls_tx_witness:
  "stat_tx (USB_EP (hw (ep0_rx test_config (test_state (setup_ram 0x0680 0x0305 0 255)))) 0) = EP_STALL \<and>
   stat_rx (USB_EP (hw (ep0_rx test_config (test_state (setup_ram 0x0680 0x0305 0 255)))) 0) = EP_VALID \<and>
   stat_tx (USB_EP (hw (ep0_rx test_config (test_state (setup_ram 0x0B00 0x0001 0 0)))) 0) = EP_STALL \<and>
   stat_tx (USB_EP (hw (ep0_rx test_config (test_state (setup_ram 0x0900 0x0001 0 0)))) 0) = EP_VALID \<and>
   hw (ep0_rx test_config (test_state (setup_ram 0x0A81 0 0 1))) = hw (test_state (setup_ram 0x0A81 0 0 1))"
proof -
  let ?s = "test_state (setup_ram 0x0680 0x0305 0 255)"
  let ?u = "test_state (setup_ram 0x0B00 0x0001 0 0)"
  let ?v = "test_state (setup_ram 0x0900 0x0001 0 0)"
  let ?w = "test_state (setup_ram 0x0A81 0 0 1)"
  have p: "usb_read_setup_packet (ep0_buf_rx_at test_config ?s) =
        \<lparr>bmRequestType = 0x80, bRequest = 0x06, wValue = 0x0305, wIndex = 0, wLength = 255\<rparr>"
      "usb_read_setup_packet (ep0_buf_rx_at test_config ?u) =
        \<lparr>bmRequestType = 0x00, bRequest = 0x0B, wValue = 0x0001, wIndex = 0, wLength = 0\<rparr>"
      "usb_read_setup_packet (ep0_buf_rx_at test_config ?v) =
        \<lparr>bmRequestType = 0x00, bRequest = 0x09, wValue = 0x0001, wIndex = 0, wLength = 0\<rparr>"
      "usb_read_setup_packet (ep0_buf_rx_at test_config ?w) =
        \<lparr>bmRequestType = 0x81, bRequest = 0x0A, wValue = 0, wIndex = 0, wLength = 1\<rparr>"
    by (simp_all add: usb_read_setup_packet_def test_rx_words)
  have a: "\<not> spec_request_supported test_config (hw ?s) (usb_read_setup_packet (ep0_buf_rx_at test_config ?s))"
    unfolding p
    by (simp add: spec_request_supported_def spec_interface_request_def spec_descriptor_supported_def
        usb_consts test_config_simps)
  have b: "\<not> spec_request_supported test_config (hw ?u) (usb_read_setup_packet (ep0_buf_rx_at test_config ?u))"
    unfolding p
    by (simp add: spec_request_supported_def spec_interface_request_def test_config_simps)
  have c: "spec_request_supported test_config (hw ?v) (usb_read_setup_packet (ep0_buf_rx_at test_config ?v))"
      "\<not> spec_interface_request test_config (usb_read_setup_packet (ep0_buf_rx_at test_config ?v))"
    unfolding p
    by (simp_all add: spec_request_supported_def spec_interface_request_def test_config_simps)
  have d: "spec_request_supported test_config (hw ?w) (usb_read_setup_packet (ep0_buf_rx_at test_config ?w))"
      "spec_interface_request test_config (usb_read_setup_packet (ep0_buf_rx_at test_config ?w))"
    unfolding p
    by (simp_all add: spec_request_supported_def spec_interface_request_def test_config_simps)
  have i: "snd (usb_iface_request test_config
             (unat (ucast (ep0_buf_rx_at test_config ?w 2 AND 0xff) :: uint8_t)) True (hw ?w)) = hw ?w"
    by (simp add: test_config_simps)
  from unknown_request_stalls_tx [of test_config ?s] a
  have 1: "stat_tx (USB_EP (hw (ep0_rx test_config ?s)) 0) = EP_STALL"
          "stat_rx (USB_EP (hw (ep0_rx test_config ?s)) 0) = EP_VALID" by blast+
  from unknown_request_stalls_tx [of test_config ?u] b
  have 2: "stat_tx (USB_EP (hw (ep0_rx test_config ?u)) 0) = EP_STALL" by blast
  from unknown_request_stalls_tx [of test_config ?v] c
  have 3: "stat_tx (USB_EP (hw (ep0_rx test_config ?v)) 0) = EP_VALID" by simp
  from unknown_request_stalls_tx [of test_config ?w] d
  have 4: "hw (ep0_rx test_config ?w) = hw ?w" unfolding i by simp
  from 1 2 3 4 show ?thesis by simp
qed

text \<open>
  C4 as stated fails: after a device-qualifier query the receive direction is not stalled.
\<close>

theorem unknown_request_rx_not_stalled_counterexample:
  "stat_rx (USB_EP (hw (ep0_rx test_config (test_state (setup_ram 0x0680 0x0600 0 10)))) 0) \<noteq> EP_STALL"
proof -
  have "ep0_rx_dispatch test_config (test_state (setup_ram 0x0680 0x0600 0 10)) =
        Inl ((test_state (setup_ram 0x0680 0x0600 0 10))\<lparr>desc_ptr := 0, iface_next := of_nat (USB_IFACE_COUNT test_config)\<rparr>)"
    by (subst ep0_rx_dispatch_get_descriptor)
       (simp_all add: test_rx_words usb_consts get_descriptor_def Let_def test_config_simps)
  then show ?thesis
    by (simp add: ep0_rx_def unknown_req_def EP_RX_VALID_TX_STALL_def)
qed


section \<open>The descriptor cursor\<close>

lemma ep0_rx_ignores_cursor: "ep0_rx cfg (s\<lparr>desc_ptr := p\<rparr>) = ep0_rx cfg s"
  by (simp add: ep0_rx_def ep0_rx_dispatch_def Let_def)

lemma ep0_tx_cursor:
  assumes "desc_ptr s \<noteq> 0"
  shows "desc_left (ep0_tx cfg s) = desc_left s - min (desc_left s) (int USB_MAX_PACKET_SIZE)"
    and "desc_ptr (ep0_tx cfg s) = nat (int (desc_ptr s) + min (desc_left s) (int USB_MAX_PACKET_SIZE))"
    and "status_out (USB_EP (hw (ep0_tx cfg s)) 0) = (desc_left (ep0_tx cfg s) = 0)"
    and "tx_count (btable_ep (hw (ep0_tx cfg s)) 0) = word_of_int (min (desc_left s) (int USB_MAX_PACKET_SIZE))"
    and "usb_ram (hw (ep0_tx cfg s)) =
           memcpy_to_usbram (usb_ram (hw s)) (desc_mem cfg) (EP0_BUF_TX_SRAM_ADDR cfg) (desc_ptr s)
             (size_t (min (desc_left s) (int USB_MAX_PACKET_SIZE)))"
    and "iface_next (ep0_tx cfg s) = iface_next s"
  using assms by (simp_all add: ep0_tx_def Let_def)

lemma unknown_req_soft [simp]:
  "desc_ptr (unknown_req s) = desc_ptr s" "desc_left (unknown_req s) = desc_left s"
  "iface_next (unknown_req s) = iface_next s" "set_addr (unknown_req s) = set_addr s"
  by (simp_all add: unknown_req_def)

lemma ep0_rx_standard_desc_ptr:
  assumes lo: "lo = (ucast (req AND 0xff) :: uint8_t)" and hi: "hi = (ucast (drop_bit 8 req) :: uint8_t)"
  shows "desc_ptr (case ep0_rx_standard cfg req s of Inl t \<Rightarrow> unknown_req t | Inr t \<Rightarrow> t) =
     (if lo = 0x80 \<and> hi = 0x06 then
        (case get_descriptor cfg (ucast (drop_bit 8 (ep0_buf_rx_at cfg s 1)))
                (ucast (ep0_buf_rx_at cfg s 1 AND 0xff)) of
           None \<Rightarrow> desc_ptr s
         | Some (desc, len) \<Rightarrow>
             if int USB_MAX_PACKET_SIZE \<le> min (uint (ep0_buf_rx_at cfg s 3)) len
             then desc + USB_MAX_PACKET_SIZE else desc_ptr s)
      else desc_ptr s)"
proof -
  have c: "(req = USB_DIR_IN OR push_bit 8 USB_REQ_GET_DESCRIPTOR) = (lo = 0x80 \<and> hi = 0x06)"
    unfolding lo hi usb_consts using decode_conds [of req] by simp
  show ?thesis
    unfolding ep0_rx_standard_def c
    by (simp add: Let_def ep0_send_descriptor_cursor split: option.splits prod.splits)
qed

lemma ep0_rx_vendor_desc_ptr:
  "desc_ptr (case ep0_rx_vendor cfg req s of Inl t \<Rightarrow> unknown_req t | Inr t \<Rightarrow> t) =
     (case webusb_url cfg of
        Some url \<Rightarrow>
          if (ucast (drop_bit 8 req) :: uint8_t) = 0x01 \<and> ep0_buf_rx_at cfg s 2 = 0x02
          then (if int USB_MAX_PACKET_SIZE \<le> min (uint (ep0_buf_rx_at cfg s 3)) (uint (desc_mem cfg url))
                then url + USB_MAX_PACKET_SIZE else desc_ptr s)
          else desc_ptr s
      | None \<Rightarrow> desc_ptr s)"
  by (auto simp add: ep0_rx_vendor_def Let_def WEBUSB_REQ_GET_URL_def ep0_send_descriptor_cursor
      split: option.splits)

lemma ep0_rx_desc_ptr:
  "desc_ptr (ep0_rx cfg s) =
     (case spec_descriptor_requested cfg (usb_read_setup_packet (ep0_buf_rx_at cfg s)) of
        None \<Rightarrow> 0
      | Some (desc, len) \<Rightarrow>
          if int USB_MAX_PACKET_SIZE \<le> min (uint (ep0_buf_rx_at cfg s 3)) len
          then desc + USB_MAX_PACKET_SIZE else 0)"
proof -
  define req where "req = ep0_buf_rx_at cfg s 0"
  define lo where "lo = (ucast (req AND 0xff) :: uint8_t)"
  define hi where "hi = (ucast (drop_bit 8 req) :: uint8_t)"
  define s' where "s' = s\<lparr>desc_ptr := 0, iface_next := of_nat (USB_IFACE_COUNT cfg)\<rparr>"
  have c: "(req AND USB_RECIP_MASK = USB_RECIP_INTERFACE) = (lo AND 0x1f = 0x01)"
    "(req AND USB_TYPE_MASK = USB_TYPE_VENDOR) = (lo AND 0x60 = 0x40)"
    unfolding lo_def usb_consts using decode_conds [of req] by simp_all
  have p: "usb_read_setup_packet (ep0_buf_rx_at cfg s) =
       \<lparr>bmRequestType = lo, bRequest = hi, wValue = ep0_buf_rx_at cfg s 1,
        wIndex = ep0_buf_rx_at cfg s 2, wLength = ep0_buf_rx_at cfg s 3\<rparr>"
    by (simp add: usb_read_setup_packet_def lo_def hi_def req_def)
  have d: "ep0_rx_dispatch cfg s =
      (if lo AND 0x1f = 0x01 \<and> unat (ucast (ep0_buf_rx_at cfg s 2 AND 0xff) :: uint8_t) < USB_IFACE_COUNT cfg
       then (let (ret, h) = usb_iface_request cfg (unat (ucast (ep0_buf_rx_at cfg s 2 AND 0xff) :: uint8_t)) True (hw s);
                 t = s'\<lparr>hw := h\<rparr>
             in if ret < 0 then Inl t
                else if ret = 1 then Inr (t\<lparr>iface_next := ucast (ep0_buf_rx_at cfg s 2 AND 0xff)\<rparr>)
                else Inr t)
       else if lo AND 0x60 = 0x40 then ep0_rx_vendor cfg req s'
       else ep0_rx_standard cfg req s')"
    unfolding ep0_rx_dispatch_def Let_def req_def [symmetric] c s'_def
    by (simp add: Let_def split: prod.splits)
  have r: "ep0_buf_rx_at cfg s' k = ep0_buf_rx_at cfg s k" for k by (simp add: s'_def)
  have z: "desc_ptr s' = 0" by (simp add: s'_def)
  let ?p = "\<lparr>bmRequestType = lo, bRequest = hi, wValue = ep0_buf_rx_at cfg s 1,
        wIndex = ep0_buf_rx_at cfg s 2, wLength = ep0_buf_rx_at cfg s 3\<rparr>"
  show ?thesis
  proof (cases "lo AND 0x1f = 0x01 \<and> unat (ucast (ep0_buf_rx_at cfg s 2 AND 0xff) :: uint8_t) < USB_IFACE_COUNT cfg")
    case True
    have q: "spec_descriptor_requested cfg ?p = None"
      using True by (simp add: spec_descriptor_requested_def spec_interface_request_def)
    have e: "desc_ptr (ep0_rx cfg s) = 0"
      unfolding ep0_rx_def d using True by (simp add: Let_def z split: prod.splits)
    show ?thesis unfolding p q e by simp
  next
    case False
    note nf = False
    then have ni: "\<not> spec_interface_request cfg ?p" by (simp add: spec_interface_request_def)
    show ?thesis
    proof (cases "lo AND 0x60 = 0x40")
      case True
      have q: "spec_descriptor_requested cfg ?p =
         (case webusb_url cfg of
           Some url \<Rightarrow>
             if hi = 0x01 \<and> ep0_buf_rx_at cfg s 2 = 0x02 then Some (url, uint (desc_mem cfg url)) else None
         | None \<Rightarrow> None)"
        using ni True by (simp add: spec_descriptor_requested_def split: option.splits)
      have e: "desc_ptr (ep0_rx cfg s) = desc_ptr (case ep0_rx_vendor cfg req s' of Inl t \<Rightarrow> unknown_req t | Inr t \<Rightarrow> t)"
        unfolding ep0_rx_def d by (simp only: if_not_P [OF nf] if_P [OF True])
      show ?thesis
        unfolding e ep0_rx_vendor_desc_ptr p q r z hi_def [symmetric]
        by (auto split: option.splits)
    next
      case False
      have q: "spec_descriptor_requested cfg ?p =
         (if lo = 0x80 \<and> hi = 0x06
          then get_descriptor cfg (ucast (drop_bit 8 (ep0_buf_rx_at cfg s 1))) (ucast (ep0_buf_rx_at cfg s 1 AND 0xff))
          else None)"
        using ni False by (simp add: spec_descriptor_requested_def)
      have e: "desc_ptr (ep0_rx cfg s) = desc_ptr (case ep0_rx_standard cfg req s' of Inl t \<Rightarrow> unknown_req t | Inr t \<Rightarrow> t)"
        unfolding ep0_rx_def d by (simp only: if_not_P [OF nf] if_not_P [OF False])
      show ?thesis
        unfolding e ep0_rx_standard_desc_ptr [OF lo_def hi_def] p q r z
        by (auto split: option.splits)
    qed
  qed
qed

text \<open>
  C6 (amended). \<^verbatim>\<open>ep0_send_descriptor\<close> sets the cursor pointer exactly when the bytes to send
  (the smaller of \<^verbatim>\<open>wLength\<close> and the descriptor length) are at least
  \<^verbatim>\<open>USB_MAX_PACKET_SIZE\<close>, and leaves it as it is otherwise. After \<^verbatim>\<open>ep0_rx\<close> the pointer is
  null for every request, whatever it was before, unless that request itself starts a
  descriptor of at least \<^verbatim>\<open>USB_MAX_PACKET_SIZE\<close> bytes, in which case it points behind the
  first packet; the whole result of \<^verbatim>\<open>ep0_rx\<close> does not depend on the pointer it finds. While
  the pointer is set, \<^verbatim>\<open>ep0_tx\<close> takes the chunk off the remaining length, which is 0 once the
  last chunk is staged, and the pointer stays non-null until the next setup stage.
\<close>

theorem desc_ptr_lifecycle:
  "desc_ptr (ep0_send_descriptor cfg desc len f s) =
     (if int USB_MAX_PACKET_SIZE \<le> min (uint (ep0_buf_rx_at cfg s 3)) len
      then desc + USB_MAX_PACKET_SIZE else desc_ptr s) \<and>
   desc_ptr (ep0_rx cfg s) =
     (case spec_descriptor_requested cfg (usb_read_setup_packet (ep0_buf_rx_at cfg s)) of
        None \<Rightarrow> 0
      | Some (d, l) \<Rightarrow>
          if int USB_MAX_PACKET_SIZE \<le> min (uint (ep0_buf_rx_at cfg s 3)) l
          then d + USB_MAX_PACKET_SIZE else 0) \<and>
   ep0_rx cfg s = ep0_rx cfg (s\<lparr>desc_ptr := 0\<rparr>) \<and>
   (desc_ptr s \<noteq> 0 \<and> 0 \<le> desc_left s \<longrightarrow>
      desc_left (ep0_tx cfg s) = desc_left s - min (desc_left s) (int USB_MAX_PACKET_SIZE) \<and>
      (desc_left s \<le> int USB_MAX_PACKET_SIZE \<longrightarrow> desc_left (ep0_tx cfg s) = 0) \<and>
      desc_ptr (ep0_tx cfg s) \<noteq> 0)"
proof (intro conjI impI)
  show "desc_ptr (ep0_send_descriptor cfg desc len f s) =
     (if int USB_MAX_PACKET_SIZE \<le> min (uint (ep0_buf_rx_at cfg s 3)) len
      then desc + USB_MAX_PACKET_SIZE else desc_ptr s)"
    by (rule ep0_send_descriptor_cursor)
  show "desc_ptr (ep0_rx cfg s) =
     (case spec_descriptor_requested cfg (usb_read_setup_packet (ep0_buf_rx_at cfg s)) of
        None \<Rightarrow> 0
      | Some (d, l) \<Rightarrow>
          if int USB_MAX_PACKET_SIZE \<le> min (uint (ep0_buf_rx_at cfg s 3)) l
          then d + USB_MAX_PACKET_SIZE else 0)"
    by (rule ep0_rx_desc_ptr)
  show "ep0_rx cfg s = ep0_rx cfg (s\<lparr>desc_ptr := 0\<rparr>)"
    by (simp add: ep0_rx_ignores_cursor)
next
  assume a: "desc_ptr s \<noteq> 0 \<and> 0 \<le> desc_left s"
  then have p: "desc_ptr s \<noteq> 0" and l: "0 \<le> desc_left s" by simp_all
  show "desc_left (ep0_tx cfg s) = desc_left s - min (desc_left s) (int USB_MAX_PACKET_SIZE)"
    by (rule ep0_tx_cursor(1) [OF p])
  show "desc_ptr (ep0_tx cfg s) \<noteq> 0"
    unfolding ep0_tx_cursor(2) [OF p] using p l by (simp add: USB_MAX_PACKET_SIZE_def)
  assume "desc_left s \<le> int USB_MAX_PACKET_SIZE"
  then show "desc_left (ep0_tx cfg s) = 0"
    unfolding ep0_tx_cursor(1) [OF p] by simp
qed

lemma ep0_rx_get_descriptor:
  assumes "ep0_buf_rx_at cfg s 0 = USB_DIR_IN OR push_bit 8 USB_REQ_GET_DESCRIPTOR"
    and "get_descriptor cfg (ucast (drop_bit 8 (ep0_buf_rx_at cfg s 1)))
           (ucast (ep0_buf_rx_at cfg s 1 AND 0xff)) = Some (desc, len)"
  shows "ep0_rx cfg s =
     ep0_send_descriptor cfg desc len
       (if (ucast (drop_bit 8 (ep0_buf_rx_at cfg s 1)) :: uint8_t) = USB_DT_CONFIGURATION
        then of_nat (USB_DESC_SIZE cfg) else 0)
       (s\<lparr>desc_ptr := 0, iface_next := of_nat (USB_IFACE_COUNT cfg)\<rparr>)"
  using assms(2) by (simp add: ep0_rx_def ep0_rx_dispatch_get_descriptor [OF assms(1)] Let_def)

lemma test_get_descriptor:
  "get_descriptor test_config 3 0 = Some (0x364, 100)"
  "get_descriptor test_config 3 2 = Some (0x640, 64)"
  "get_descriptor test_config 1 0 = Some (0x100, 18)"
  "get_descriptor test_config 2 0 = Some (0x200, 9)"
  by (simp_all add: get_descriptor_def usb_consts test_config_simps Let_def)

lemma test_string0_started:
  "desc_ptr (ep0_rx test_config (test_state (setup_ram 0x0680 0x0300 0 255))) = 0x3a4"
  "desc_left (ep0_rx test_config (test_state (setup_ram 0x0680 0x0300 0 255))) = 36"
proof -
  let ?s = "test_state (setup_ram 0x0680 0x0300 0 255)"
  have r: "ep0_buf_rx_at test_config ?s 0 = USB_DIR_IN OR push_bit 8 USB_REQ_GET_DESCRIPTOR"
    by (simp add: test_rx_words usb_consts)
  have e: "ep0_rx test_config ?s = ep0_send_descriptor test_config 0x364 100 0
       (?s\<lparr>desc_ptr := 0, iface_next := of_nat (USB_IFACE_COUNT test_config)\<rparr>)"
    by (subst ep0_rx_get_descriptor [OF r]) (simp_all add: test_rx_words test_get_descriptor usb_consts)
  show "desc_ptr (ep0_rx test_config ?s) = 0x3a4" "desc_left (ep0_rx test_config ?s) = 36"
    unfolding e ep0_send_descriptor_cursor by (simp_all add: test_rx_words USB_MAX_PACKET_SIZE_def)
qed

theorem desc_ptr_lifecycle_witness:
  "desc_left (ep0_tx test_config (ep0_rx test_config (test_state (setup_ram 0x0680 0x0300 0 255)))) = 0 \<and>
   desc_ptr (ep0_tx test_config (ep0_rx test_config (test_state (setup_ram 0x0680 0x0300 0 255)))) \<noteq> 0 \<and>
   desc_ptr (ep0_rx test_config ((test_state (setup_ram 0x0900 0x0001 0 0))\<lparr>desc_ptr := 0x3a4\<rparr>)) = 0"
proof -
  let ?s = "ep0_rx test_config (test_state (setup_ram 0x0680 0x0300 0 255))"
  let ?u = "(test_state (setup_ram 0x0900 0x0001 0 0))\<lparr>desc_ptr := 0x3a4\<rparr>"
  have n: "desc_ptr ?s \<noteq> 0 \<and> 0 \<le> desc_left ?s" and l: "desc_left ?s \<le> int USB_MAX_PACKET_SIZE"
    by (simp_all add: test_string0_started USB_MAX_PACKET_SIZE_def)
  from desc_ptr_lifecycle [of test_config 0 0 0 ?s] n l
  have 1: "desc_left (ep0_tx test_config ?s) = 0" "desc_ptr (ep0_tx test_config ?s) \<noteq> 0"
    by blast+
  have p: "usb_read_setup_packet (ep0_buf_rx_at test_config ?u) =
        \<lparr>bmRequestType = 0x00, bRequest = 0x09, wValue = 0x0001, wIndex = 0, wLength = 0\<rparr>"
    by (simp add: usb_read_setup_packet_def test_rx_words)
  have q: "spec_descriptor_requested test_config (usb_read_setup_packet (ep0_buf_rx_at test_config ?u)) = None"
    unfolding p by (simp add: spec_descriptor_requested_def spec_interface_request_def)
  from desc_ptr_lifecycle [of test_config 0 0 0 ?u, THEN conjunct2, THEN conjunct1]
  have 2: "desc_ptr (ep0_rx test_config ?u) = 0" unfolding q by simp
  from 1 2 show ?thesis by simp
qed

text \<open>
  C6 as stated fails twice: a descriptor of exactly 64 bytes, sent whole in one packet, sets
  the pointer; and after the last chunk of a 100-byte descriptor the pointer is still set.
\<close>

theorem desc_ptr_single_packet_counterexample:
  "min (uint (ep0_buf_rx_at test_config (test_state (setup_ram 0x0680 0x0302 0 255)) 3)) 64
     = int USB_MAX_PACKET_SIZE \<and>
   desc_ptr (ep0_rx test_config (test_state (setup_ram 0x0680 0x0302 0 255))) \<noteq> 0 \<and>
   desc_left (ep0_rx test_config (test_state (setup_ram 0x0680 0x0302 0 255))) = 0 \<and>
   desc_left (ep0_tx test_config (ep0_rx test_config (test_state (setup_ram 0x0680 0x0300 0 255)))) = 0 \<and>
   desc_ptr (ep0_tx test_config (ep0_rx test_config (test_state (setup_ram 0x0680 0x0300 0 255)))) = 0x3c8"
proof -
  let ?s = "test_state (setup_ram 0x0680 0x0302 0 255)"
  have r: "ep0_buf_rx_at test_config ?s 0 = USB_DIR_IN OR push_bit 8 USB_REQ_GET_DESCRIPTOR"
    by (simp add: test_rx_words usb_consts)
  have e: "ep0_rx test_config ?s = ep0_send_descriptor test_config 0x640 64 0
       (?s\<lparr>desc_ptr := 0, iface_next := of_nat (USB_IFACE_COUNT test_config)\<rparr>)"
    by (subst ep0_rx_get_descriptor [OF r]) (simp_all add: test_rx_words test_get_descriptor usb_consts)
  have a: "min (uint (ep0_buf_rx_at test_config ?s 3)) 64 = int USB_MAX_PACKET_SIZE"
    by (simp add: test_rx_words USB_MAX_PACKET_SIZE_def)
  have b: "desc_ptr (ep0_rx test_config ?s) \<noteq> 0" "desc_left (ep0_rx test_config ?s) = 0"
    unfolding e ep0_send_descriptor_cursor by (simp_all add: test_rx_words USB_MAX_PACKET_SIZE_def)
  let ?t = "ep0_rx test_config (test_state (setup_ram 0x0680 0x0300 0 255))"
  have p: "desc_ptr ?t \<noteq> 0" by (simp add: test_string0_started)
  have c: "desc_left (ep0_tx test_config ?t) = 0" "desc_ptr (ep0_tx test_config ?t) = 0x3c8"
    unfolding ep0_tx_cursor [OF p] test_string0_started by (simp_all add: USB_MAX_PACKET_SIZE_def)
  from a b c show ?thesis by simp
qed

lemma rx_setup_simps [simp]:
  "ep0_buf_rx_at cfg (rx_setup cfg w0 w1 w2 w3 s) 0 = w0"
  "ep0_buf_rx_at cfg (rx_setup cfg w0 w1 w2 w3 s) 1 = w1"
  "ep0_buf_rx_at cfg (rx_setup cfg w0 w1 w2 w3 s) (Suc 0) = w1"
  "ep0_buf_rx_at cfg (rx_setup cfg w0 w1 w2 w3 s) 2 = w2"
  "ep0_buf_rx_at cfg (rx_setup cfg w0 w1 w2 w3 s) 3 = w3"
  "desc_left (rx_setup cfg w0 w1 w2 w3 s) = desc_left s"
  "desc_ptr (rx_setup cfg w0 w1 w2 w3 s) = desc_ptr s"
  by (simp_all add: rx_setup_def ep0_buf_rx_at_def)

text \<open>
  C3. A SETUP that pre-empts a descriptor stream does not reset the remaining length: with
  36 bytes of a 100-byte string still to send, a GET_DESCRIPTOR for the 18-byte device
  descriptor is answered in one packet, \<^verbatim>\<open>desc_left\<close> is still 36, and the macro is called
  without \<^verbatim>\<open>EP_STATUS_OUT\<close>; the same request on a state with no stream behind it passes
  \<^verbatim>\<open>EP_STATUS_OUT\<close>.
\<close>

theorem stale_desc_left_withholds_status_out:
  "desc_left (ep0_rx test_config (rx_setup test_config 0x0680 0x0100 0 18
      (ep0_rx test_config (test_state (setup_ram 0x0680 0x0300 0 255))))) = 36 \<and>
   tx_count (btable_ep (hw (ep0_rx test_config (rx_setup test_config 0x0680 0x0100 0 18
      (ep0_rx test_config (test_state (setup_ram 0x0680 0x0300 0 255)))))) 0) = 18 \<and>
   \<not> status_out (USB_EP (hw (ep0_rx test_config (rx_setup test_config 0x0680 0x0100 0 18
      (ep0_rx test_config (test_state (setup_ram 0x0680 0x0300 0 255)))))) 0) \<and>
   status_out (USB_EP (hw (ep0_rx test_config (test_state (setup_ram 0x0680 0x0100 0 18)))) 0)"
proof -
  let ?t = "rx_setup test_config 0x0680 0x0100 0 18
      (ep0_rx test_config (test_state (setup_ram 0x0680 0x0300 0 255)))"
  have r: "ep0_buf_rx_at test_config ?t 0 = USB_DIR_IN OR push_bit 8 USB_REQ_GET_DESCRIPTOR"
    by (simp add: usb_consts)
  have e: "ep0_rx test_config ?t = ep0_send_descriptor test_config 0x100 18 0
       (?t\<lparr>desc_ptr := 0, iface_next := of_nat (USB_IFACE_COUNT test_config)\<rparr>)"
    by (subst ep0_rx_get_descriptor [OF r]) (simp_all add: test_get_descriptor usb_consts)
  have a: "desc_left (ep0_rx test_config ?t) = 36"
    unfolding e ep0_send_descriptor_cursor by (simp add: test_string0_started USB_MAX_PACKET_SIZE_def)
  have b: "tx_count (btable_ep (hw (ep0_rx test_config ?t)) 0) = 18"
    unfolding e ep0_send_descriptor_regs by (simp add: USB_MAX_PACKET_SIZE_def)
  have "status_out (USB_EP (hw (ep0_rx test_config ?t)) 0) = (desc_left (ep0_rx test_config ?t) = 0)"
    unfolding e by (rule ep0_send_descriptor_regs(1))
  then have c: "\<not> status_out (USB_EP (hw (ep0_rx test_config ?t)) 0)"
    unfolding a by simp
  let ?u = "test_state (setup_ram 0x0680 0x0100 0 18)"
  have r': "ep0_buf_rx_at test_config ?u 0 = USB_DIR_IN OR push_bit 8 USB_REQ_GET_DESCRIPTOR"
    by (simp add: test_rx_words usb_consts)
  have e': "ep0_rx test_config ?u = ep0_send_descriptor test_config 0x100 18 0
       (?u\<lparr>desc_ptr := 0, iface_next := of_nat (USB_IFACE_COUNT test_config)\<rparr>)"
    by (subst ep0_rx_get_descriptor [OF r']) (simp_all add: test_rx_words test_get_descriptor usb_consts)
  have d: "status_out (USB_EP (hw (ep0_rx test_config ?u)) 0)"
    unfolding e' ep0_send_descriptor_regs ep0_send_descriptor_cursor
    by (simp add: test_rx_words test_state_simps USB_MAX_PACKET_SIZE_def)
  from a b c d show ?thesis by simp
qed

section \<open>Bus reset\<close>

lemma fold_call_ep_event_soft:
  "set_addr (fold (\<lambda>ep. call_ep_event cfg ep evt) eps s) = set_addr s \<and>
   desc_left (fold (\<lambda>ep. call_ep_event cfg ep evt) eps s) = desc_left s \<and>
   desc_ptr (fold (\<lambda>ep. call_ep_event cfg ep evt) eps s) = desc_ptr s \<and>
   iface_next (fold (\<lambda>ep. call_ep_event cfg ep evt) eps s) = iface_next s \<and>
   CNTR_FSUSP (fold (\<lambda>ep. call_ep_event cfg ep evt) eps s) = CNTR_FSUSP s \<and>
   usb_wake_done (fold (\<lambda>ep. call_ep_event cfg ep evt) eps s) = usb_wake_done s"
  by (induction eps arbitrary: s) (simp_all add: call_ep_event_def)

lemma usb_reset_soft:
  "USB_DADDR (usb_reset cfg s) = 0x80" "set_addr (usb_reset cfg s) = set_addr s"
  by (simp_all add: usb_reset_def Let_def fold_call_ep_event_soft)

lemma rx_setup_set_addr [simp]: "set_addr (rx_setup cfg w0 w1 w2 w3 s) = set_addr s"
  by (simp add: rx_setup_def)

text \<open>
  C5. A bus reset does not clear the pending address. SET_ADDRESS 5 is decoded and the bus is
  reset before its status stage: the address register then holds the default address 0,
  but the address 5 is still pending, and the first IN transaction that completes after the
  reset (here the one answering a GET_DESCRIPTOR for the device descriptor, sent to address
  0) writes 5 to the address register.
\<close>

theorem usb_reset_keeps_pending_address:
  "USB_DADDR (usb_interrupts test_config
      [(istr_none\<lparr>ISTR_CTR := True, ISTR_DIR := True\<rparr>, 0), (istr_none\<lparr>ISTR_RESET := True\<rparr>, 0)]
      (test_state (setup_ram 0x0500 0x0005 0 0))) = 0x80 \<and>
   set_addr (usb_interrupts test_config
      [(istr_none\<lparr>ISTR_CTR := True, ISTR_DIR := True\<rparr>, 0), (istr_none\<lparr>ISTR_RESET := True\<rparr>, 0)]
      (test_state (setup_ram 0x0500 0x0005 0 0))) = 5 \<and>
   USB_DADDR (usb_interrupts test_config
      [(istr_none\<lparr>ISTR_CTR := True, ISTR_DIR := True\<rparr>, 0), (istr_none\<lparr>ISTR_CTR := True\<rparr>, 0)]
      (rx_setup test_config 0x0680 0x0100 0 18
         (usb_interrupts test_config
            [(istr_none\<lparr>ISTR_CTR := True, ISTR_DIR := True\<rparr>, 0), (istr_none\<lparr>ISTR_RESET := True\<rparr>, 0)]
            (test_state (setup_ram 0x0500 0x0005 0 0))))) = 0x85"
proof -
  let ?s0 = "test_state (setup_ram 0x0500 0x0005 0 0)"
  let ?s2 = "usb_reset test_config (ep0_rx test_config ?s0)"
  let ?s3 = "rx_setup test_config 0x0680 0x0100 0 18 ?s2"
  have n: "0 < USB_EP_COUNT test_config" by (simp add: test_config_simps)
  have e2: "usb_interrupts test_config
      [(istr_none\<lparr>ISTR_CTR := True, ISTR_DIR := True\<rparr>, 0), (istr_none\<lparr>ISTR_RESET := True\<rparr>, 0)] ?s0 = ?s2"
    unfolding usb_interrupts_simps usb_interrupt_causes(4) [OF n] usb_interrupt_causes(1) by (rule refl)
  have e5: "usb_interrupts test_config
      [(istr_none\<lparr>ISTR_CTR := True, ISTR_DIR := True\<rparr>, 0), (istr_none\<lparr>ISTR_CTR := True\<rparr>, 0)] ?s3 =
      ep0_tx test_config (ep0_rx test_config ?s3)"
    unfolding usb_interrupts_simps usb_interrupt_causes(4) [OF n] usb_interrupt_causes(5) [OF n]
    by (rule refl)
  have r0: "ep0_buf_rx_at test_config ?s0 0 = USB_DIR_OUT OR push_bit 8 USB_REQ_SET_ADDRESS"
    by (simp add: test_rx_words usb_consts)
  have a1: "set_addr (ep0_rx test_config ?s0) = 5"
    unfolding ep0_rx_set_address [OF r0] by (simp add: test_rx_words)
  have a2: "set_addr ?s2 = 5" "USB_DADDR ?s2 = 0x80"
    by (simp_all add: usb_reset_soft a1)
  have r3: "ep0_buf_rx_at test_config ?s3 0 = USB_DIR_IN OR push_bit 8 USB_REQ_GET_DESCRIPTOR"
    by (simp add: usb_consts)
  have e4: "ep0_rx test_config ?s3 = ep0_send_descriptor test_config 0x100 18 0
       (?s3\<lparr>desc_ptr := 0, iface_next := of_nat (USB_IFACE_COUNT test_config)\<rparr>)"
    by (subst ep0_rx_get_descriptor [OF r3]) (simp_all add: test_get_descriptor usb_consts)
  have a4: "set_addr (ep0_rx test_config ?s3) = 5"
    unfolding e4 ep0_send_descriptor_cursor by (simp add: a2)
  then have "set_addr (ep0_rx test_config ?s3) \<noteq> 0" by simp
  from ep0_tx_set_addr(3) [OF this]
  have a5: "USB_DADDR (ep0_tx test_config (ep0_rx test_config ?s3)) = 0x85"
    unfolding a4 by simp
  show ?thesis unfolding e2 e5 using a2 a5 by simp
qed

section \<open>The IN stage of GET_DESCRIPTOR\<close>

lemma memcpy_to_usbram_bytes:
  "map (usbram_byte (memcpy_to_usbram ram mem a src n)) [a..<a + n] = map mem [src..<src + n]"
  by (simp add: list_eq_iff_nth_eq usbram_byte_memcpy_to)

lemma size_t_small: "0 \<le> x \<Longrightarrow> x \<le> 64 \<Longrightarrow> size_t x = nat x"
  by (simp add: size_t_def)

lemma unat_packet_len: "0 \<le> x \<Longrightarrow> x \<le> 64 \<Longrightarrow> unat (word_of_int x :: usb_uint) = nat x"
  by (simp add: unat_eq_nat_uint uint_word_of_int take_bit_int_eq_self)

lemma ep0_send_descriptor_ram:
  "usb_ram (hw (ep0_send_descriptor cfg desc len f s)) =
     (let r = memcpy_to_usbram (usb_ram (hw s)) (desc_mem cfg) (EP0_BUF_TX_SRAM_ADDR cfg) desc
                (size_t (min (min (uint (ep0_buf_rx_at cfg s 3)) len) (int USB_MAX_PACKET_SIZE)))
      in if f \<noteq> 0 then r(ep0_buf_tx cfg + 1 := f) else r)"
  by (simp add: ep0_send_descriptor_def Let_def min_def split: prod.split)

lemma usbram_byte_fixup:
  "usbram_byte (r(t + 1 := f)) (t * 2 + i) =
     (if i = 2 then ucast f else if i = 3 then ucast (drop_bit 8 f) else usbram_byte r (t * 2 + i))"
proof -
  have "(t * 2 + i) div 2 = t + 1 \<longleftrightarrow> i = 2 \<or> i = 3" by presburger
  moreover have "(t * 2 + 2) mod 2 = 0" "(t * 2 + 3) mod 2 \<noteq> 0" by presburger+
  ultimately show ?thesis by (auto simp: usbram_byte_upd)
qed

lemma fixup_bytes_nth:
  "i < length bs \<Longrightarrow> fixup_bytes f bs ! i =
     (if f \<noteq> 0 \<and> i = 2 then ucast f else if f \<noteq> 0 \<and> i = 3 then ucast (drop_bit 8 f) else bs ! i)"
  by (auto simp: fixup_bytes_def nth_list_update)

lemma fixup_bytes_length [simp]: "length (fixup_bytes f bs) = length bs"
  by (simp add: fixup_bytes_def)

lemma fixup_bytes_take: "take n (fixup_bytes f bs) = fixup_bytes f (take n bs)"
  by (simp add: fixup_bytes_def take_update_swap)

lemma fixup_bytes_append: "4 \<le> length xs \<Longrightarrow> fixup_bytes f (xs @ ys) = fixup_bytes f xs @ ys"
  by (simp add: fixup_bytes_def list_update_append)

lemma ep0_send_descriptor_payload:
  assumes "0 \<le> len"
  shows "ep0_in_payload cfg (ep0_send_descriptor cfg desc len f s) =
     fixup_bytes f (map (desc_mem cfg)
       [desc..<desc + nat (min (min (uint (ep0_buf_rx_at cfg s 3)) len) (int USB_MAX_PACKET_SIZE))])"
proof -
  define n where "n = min (min (uint (ep0_buf_rx_at cfg s 3)) len) (int USB_MAX_PACKET_SIZE)"
  have n: "0 \<le> n" "n \<le> 64" using assms by (simp_all add: n_def USB_MAX_PACKET_SIZE_def)
  define r where "r = memcpy_to_usbram (usb_ram (hw s)) (desc_mem cfg) (EP0_BUF_TX_SRAM_ADDR cfg) desc (nat n)"
  define r2 where "r2 = (if f \<noteq> 0 then r(ep0_buf_tx cfg + 1 := f) else r)"
  have ram: "usb_ram (hw (ep0_send_descriptor cfg desc len f s)) = r2"
    unfolding ep0_send_descriptor_ram Let_def n_def [symmetric] size_t_small [OF n] r_def r2_def ..
  have cnt: "unat (tx_count (btable_ep (hw (ep0_send_descriptor cfg desc len f s)) 0)) = nat n"
    unfolding ep0_send_descriptor_regs n_def [symmetric] by (rule unat_packet_len [OF n])
  have rb: "usbram_byte r (ep0_buf_tx cfg * 2 + i) = desc_mem cfg (desc + i)" if "i < nat n" for i
    using that unfolding r_def usbram_byte_memcpy_to EP0_BUF_TX_SRAM_ADDR_def by simp
  have pb: "usbram_byte r2 (ep0_buf_tx cfg * 2 + i) =
      fixup_bytes f (map (desc_mem cfg) [desc..<desc + nat n]) ! i" if "i < nat n" for i
  proof (cases "f = 0")
    case True
    then show ?thesis using that by (simp add: r2_def fixup_bytes_def rb)
  next
    case False
    have l: "i < length (map (desc_mem cfg) [desc..<desc + nat n])" using that by simp
    have e: "r2 = r(ep0_buf_tx cfg + 1 := f)" using False by (simp add: r2_def)
    show ?thesis
      unfolding e fixup_bytes_nth [OF l] usbram_byte_fixup using False that
      by (simp add: rb)
  qed
  show ?thesis
    unfolding ep0_in_payload_def cnt ram n_def [symmetric] EP0_BUF_TX_SRAM_ADDR_def
    by (rule nth_equalityI) (simp_all add: pb)
qed

lemma ep0_tx_payload:
  assumes "desc_ptr t \<noteq> 0" "0 \<le> desc_left t"
  shows "ep0_in_payload cfg (ep0_tx cfg t) =
     map (desc_mem cfg) [desc_ptr t..<desc_ptr t + nat (min (desc_left t) (int USB_MAX_PACKET_SIZE))]"
proof -
  define n where "n = min (desc_left t) (int USB_MAX_PACKET_SIZE)"
  have n: "0 \<le> n" "n \<le> 64" using assms by (simp_all add: n_def USB_MAX_PACKET_SIZE_def)
  show ?thesis
    unfolding ep0_in_payload_def ep0_tx_cursor [OF assms(1)] n_def [symmetric]
      size_t_small [OF n] unat_packet_len [OF n]
    by (rule memcpy_to_usbram_bytes)
qed

lemma upt_split: "[a..<a + (n + m)] = [a..<a + n] @ [a + n..<a + (n + m)]"
  using upt_add_eq_append [of a "a + n" m] by (simp add: add.assoc)

lemma in_packets_stream:
  assumes "desc_ptr t \<noteq> 0" "0 \<le> desc_left t"
  shows "concat (in_packets cfg k t) =
           map (desc_mem cfg) [desc_ptr t..<desc_ptr t + min (nat (desc_left t)) (USB_MAX_PACKET_SIZE * k)] \<and>
         list_all (\<lambda>p. length p \<le> USB_MAX_PACKET_SIZE) (in_packets cfg k t)"
  using assms
proof (induction k arbitrary: t)
  case 0
  show ?case by simp
next
  case (Suc k)
  define n where "n = nat (min (desc_left t) (int USB_MAX_PACKET_SIZE))"
  have n: "n = min (nat (desc_left t)) USB_MAX_PACKET_SIZE" using Suc.prems by (simp add: n_def)
  have p: "ep0_in_payload cfg (ep0_tx cfg t) = map (desc_mem cfg) [desc_ptr t..<desc_ptr t + n]"
    unfolding n_def by (rule ep0_tx_payload [OF Suc.prems])
  have l: "desc_left (ep0_tx cfg t) = desc_left t - int n"
    unfolding ep0_tx_cursor(1) [OF Suc.prems(1)] n_def using Suc.prems(2)
    by (simp add: USB_MAX_PACKET_SIZE_def)
  have q: "desc_ptr (ep0_tx cfg t) = desc_ptr t + n"
    unfolding ep0_tx_cursor(2) [OF Suc.prems(1)] n_def using Suc.prems(2)
    by (simp add: USB_MAX_PACKET_SIZE_def nat_add_distrib)
  have l0: "0 \<le> desc_left (ep0_tx cfg t)" unfolding l n using Suc.prems(2) by simp
  have q0: "desc_ptr (ep0_tx cfg t) \<noteq> 0" unfolding q using Suc.prems(1) by simp
  note ih = Suc.IH [OF q0 l0]
  have a: "n + min (nat (desc_left t - int n)) (USB_MAX_PACKET_SIZE * k)
           = min (nat (desc_left t)) (USB_MAX_PACKET_SIZE * Suc k)"
    unfolding n USB_MAX_PACKET_SIZE_def using Suc.prems(2) by (simp add: min_def) linarith+
  have "concat (in_packets cfg (Suc k) t) =
        map (desc_mem cfg) [desc_ptr t..<desc_ptr t + n] @
        map (desc_mem cfg) [desc_ptr t + n..<desc_ptr t + (n + min (nat (desc_left t - int n)) (USB_MAX_PACKET_SIZE * k))]"
    using ih p by (simp add: l q add.assoc)
  also have "\<dots> = map (desc_mem cfg) [desc_ptr t..<desc_ptr t + (n + min (nat (desc_left t - int n)) (USB_MAX_PACKET_SIZE * k))]"
    unfolding map_append [symmetric] upt_split [symmetric] ..
  finally have c: "concat (in_packets cfg (Suc k) t) =
      map (desc_mem cfg) [desc_ptr t..<desc_ptr t + min (nat (desc_left t)) (USB_MAX_PACKET_SIZE * Suc k)]"
    unfolding a .
  have "length (ep0_in_payload cfg (ep0_tx cfg t)) \<le> USB_MAX_PACKET_SIZE"
    unfolding p n by simp
  with ih have b: "list_all (\<lambda>p. length p \<le> USB_MAX_PACKET_SIZE) (in_packets cfg (Suc k) t)"
    by simp
  from c b show ?case ..
qed


lemma take_upt_min: "take n [a..<a + m] = [a..<a + min m n]"
  by (cases "n \<le> m") (simp_all add: min_def)

lemma in_stage_prefix:
  assumes req: "ep0_buf_rx_at cfg s 0 = USB_DIR_IN OR push_bit 8 USB_REQ_GET_DESCRIPTOR"
    and dsc: "get_descriptor cfg (ucast (drop_bit 8 (ep0_buf_rx_at cfg s 1)))
                (ucast (ep0_buf_rx_at cfg s 1 AND 0xff)) = Some (desc, len)"
    and len: "0 \<le> len"
    and more: "k = 0 \<or> int USB_MAX_PACKET_SIZE \<le> min (uint (ep0_buf_rx_at cfg s 3)) len"
  shows "concat (in_stage cfg k s) =
           take (USB_MAX_PACKET_SIZE * (k + 1))
             (fixup_bytes
               (if (ucast (drop_bit 8 (ep0_buf_rx_at cfg s 1)) :: uint8_t) = USB_DT_CONFIGURATION
                then of_nat (USB_DESC_SIZE cfg) else 0)
               (map (desc_mem cfg) [desc..<desc + nat (min (uint (ep0_buf_rx_at cfg s 3)) len)])) \<and>
         list_all (\<lambda>p. length p \<le> USB_MAX_PACKET_SIZE) (in_stage cfg k s)"
proof -
  define fx :: usb_uint where
    "fx = (if (ucast (drop_bit 8 (ep0_buf_rx_at cfg s 1)) :: uint8_t) = USB_DT_CONFIGURATION
           then of_nat (USB_DESC_SIZE cfg) else 0)"
  define s' where "s' = s\<lparr>desc_ptr := 0, iface_next := of_nat (USB_IFACE_COUNT cfg)\<rparr>"
  define total where "total = min (uint (ep0_buf_rx_at cfg s 3)) len"
  define t where "t = ep0_rx cfg s"
  have t: "t = ep0_send_descriptor cfg desc len fx s'"
    unfolding t_def fx_def s'_def by (rule ep0_rx_get_descriptor [OF req dsc])
  have w: "ep0_buf_rx_at cfg s' 3 = ep0_buf_rx_at cfg s 3" by (simp add: s'_def)
  have tot: "0 \<le> total" using len by (simp add: total_def)
  have first: "ep0_in_payload cfg t =
      fixup_bytes fx (map (desc_mem cfg) [desc..<desc + nat (min total (int USB_MAX_PACKET_SIZE))])"
    unfolding t ep0_send_descriptor_payload [OF len] w total_def ..
  have flen: "length (ep0_in_payload cfg t) \<le> USB_MAX_PACKET_SIZE"
    unfolding first using tot by simp
  have stage: "in_stage cfg k s = ep0_in_payload cfg t # in_packets cfg k t"
    by (simp add: in_stage_def t_def)
  show ?thesis
  proof (cases "int USB_MAX_PACKET_SIZE \<le> total")
    case True
    have p: "desc_ptr t = desc + USB_MAX_PACKET_SIZE" and l: "desc_left t = total - int USB_MAX_PACKET_SIZE"
      unfolding t ep0_send_descriptor_cursor w total_def [symmetric] using True by simp_all
    have p0: "desc_ptr t \<noteq> 0" unfolding p by (simp add: USB_MAX_PACKET_SIZE_def)
    have l0: "0 \<le> desc_left t" unfolding l using True by simp
    note rest = in_packets_stream [OF p0 l0, of cfg k]
    have m: "nat (min total (int USB_MAX_PACKET_SIZE)) = USB_MAX_PACKET_SIZE" using True by simp
    have a: "USB_MAX_PACKET_SIZE + min (nat (total - int USB_MAX_PACKET_SIZE)) (USB_MAX_PACKET_SIZE * k)
             = min (nat total) (USB_MAX_PACKET_SIZE * (k + 1))"
      using True unfolding USB_MAX_PACKET_SIZE_def by (simp add: min_def) linarith+
    have "concat (in_stage cfg k s) =
        fixup_bytes fx (map (desc_mem cfg) [desc..<desc + USB_MAX_PACKET_SIZE]) @
        map (desc_mem cfg) [desc + USB_MAX_PACKET_SIZE..<desc +
           (USB_MAX_PACKET_SIZE + min (nat (total - int USB_MAX_PACKET_SIZE)) (USB_MAX_PACKET_SIZE * k))]"
      unfolding stage using rest by (simp add: first m p l add.assoc)
    also have "\<dots> = fixup_bytes fx
        (map (desc_mem cfg) [desc..<desc + USB_MAX_PACKET_SIZE] @
         map (desc_mem cfg) [desc + USB_MAX_PACKET_SIZE..<desc +
           (USB_MAX_PACKET_SIZE + min (nat (total - int USB_MAX_PACKET_SIZE)) (USB_MAX_PACKET_SIZE * k))])"
      by (rule fixup_bytes_append [symmetric]) (simp add: USB_MAX_PACKET_SIZE_def)
    also have "\<dots> = fixup_bytes fx (map (desc_mem cfg)
        [desc..<desc + (USB_MAX_PACKET_SIZE +
           min (nat (total - int USB_MAX_PACKET_SIZE)) (USB_MAX_PACKET_SIZE * k))])"
      unfolding map_append [symmetric] upt_split [symmetric] ..
    also have "\<dots> = fixup_bytes fx (map (desc_mem cfg)
        [desc..<desc + min (nat total) (USB_MAX_PACKET_SIZE * (k + 1))])"
      unfolding a ..
    also have "\<dots> = take (USB_MAX_PACKET_SIZE * (k + 1))
        (fixup_bytes fx (map (desc_mem cfg) [desc..<desc + nat total]))"
      unfolding fixup_bytes_take take_map take_upt_min ..
    finally have c: "concat (in_stage cfg k s) = take (USB_MAX_PACKET_SIZE * (k + 1))
        (fixup_bytes fx (map (desc_mem cfg) [desc..<desc + nat total]))" .
    have b: "list_all (\<lambda>p. length p \<le> USB_MAX_PACKET_SIZE) (in_stage cfg k s)"
      unfolding stage using rest flen by simp
    from c b show ?thesis unfolding fx_def total_def by blast
  next
    case False
    with more have k: "k = 0" unfolding total_def by blast
    have m: "nat (min total (int USB_MAX_PACKET_SIZE)) = nat total" using False by simp
    have n: "nat total \<le> USB_MAX_PACKET_SIZE" using False by simp
    have stage0: "in_stage cfg 0 s = [ep0_in_payload cfg t]"
      by (simp add: in_stage_def t_def)
    have c: "concat (in_stage cfg k s) = take (USB_MAX_PACKET_SIZE * (k + 1))
        (fixup_bytes fx (map (desc_mem cfg) [desc..<desc + nat total]))"
      unfolding k stage0 first m using n by simp
    have b: "list_all (\<lambda>p. length p \<le> USB_MAX_PACKET_SIZE) (in_stage cfg k s)"
      unfolding k stage0 using flen by simp
    from c b show ?thesis unfolding fx_def total_def by blast
  qed
qed


text \<open>
  C1 (amended). For every supported GET_DESCRIPTOR request (whatever its \<^verbatim>\<open>wLength\<close>, so also
  one larger than a maximum packet), the payloads of the IN stage, the first staged by
  \<^verbatim>\<open>ep0_send_descriptor\<close> and the continuations by \<^verbatim>\<open>ep0_tx\<close>, concatenate to the source
  descriptor truncated to the smaller of \<^verbatim>\<open>wLength\<close> and the descriptor length, except that for
  the configuration descriptor bytes 2 and 3 are \<^verbatim>\<open>USB_DESC_SIZE\<close> (low byte first) and not the
  bytes of the source; no payload is longer than \<^verbatim>\<open>USB_MAX_PACKET_SIZE\<close>. After \<open>k\<close>
  continuations (which follow a full first packet only) the host holds the first
  \<open>64 * (k + 1)\<close> of these bytes.
\<close>

theorem get_descriptor_in_stage:
  assumes req: "ep0_buf_rx_at cfg s 0 = USB_DIR_IN OR push_bit 8 USB_REQ_GET_DESCRIPTOR"
    and dsc: "get_descriptor cfg (ucast (drop_bit 8 (ep0_buf_rx_at cfg s 1)))
                (ucast (ep0_buf_rx_at cfg s 1 AND 0xff)) = Some (desc, len)"
    and len: "0 \<le> len"
  shows "concat (in_stage cfg (nat (min (uint (ep0_buf_rx_at cfg s 3)) len) div USB_MAX_PACKET_SIZE) s) =
           fixup_bytes
             (if (ucast (drop_bit 8 (ep0_buf_rx_at cfg s 1)) :: uint8_t) = USB_DT_CONFIGURATION
              then of_nat (USB_DESC_SIZE cfg) else 0)
             (map (desc_mem cfg) [desc..<desc + nat (min (uint (ep0_buf_rx_at cfg s 3)) len)]) \<and>
         list_all (\<lambda>p. length p \<le> USB_MAX_PACKET_SIZE)
           (in_stage cfg (nat (min (uint (ep0_buf_rx_at cfg s 3)) len) div USB_MAX_PACKET_SIZE) s) \<and>
         (k = 0 \<or> int USB_MAX_PACKET_SIZE \<le> min (uint (ep0_buf_rx_at cfg s 3)) len \<longrightarrow>
            concat (in_stage cfg k s) =
              take (USB_MAX_PACKET_SIZE * (k + 1))
                (fixup_bytes
                  (if (ucast (drop_bit 8 (ep0_buf_rx_at cfg s 1)) :: uint8_t) = USB_DT_CONFIGURATION
                   then of_nat (USB_DESC_SIZE cfg) else 0)
                  (map (desc_mem cfg) [desc..<desc + nat (min (uint (ep0_buf_rx_at cfg s 3)) len)])) \<and>
            list_all (\<lambda>p. length p \<le> USB_MAX_PACKET_SIZE) (in_stage cfg k s))"
proof -
  define total where "total = nat (min (uint (ep0_buf_rx_at cfg s 3)) len)"
  have m: "total div USB_MAX_PACKET_SIZE = 0 \<or>
           int USB_MAX_PACKET_SIZE \<le> min (uint (ep0_buf_rx_at cfg s 3)) len"
  proof (cases "64 \<le> min (uint (ep0_buf_rx_at cfg s 3)) len")
    case True
    then show ?thesis by (simp add: USB_MAX_PACKET_SIZE_def)
  next
    case False
    then have "nat (min (uint (ep0_buf_rx_at cfg s 3)) len) < 64" by linarith
    then show ?thesis by (simp add: total_def USB_MAX_PACKET_SIZE_def)
  qed
  have c: "total < USB_MAX_PACKET_SIZE * (total div USB_MAX_PACKET_SIZE + 1)"
    unfolding USB_MAX_PACKET_SIZE_def by presburger
  note full = in_stage_prefix [OF req dsc len m, folded total_def]
  have "take (USB_MAX_PACKET_SIZE * (total div USB_MAX_PACKET_SIZE + 1))
          (fixup_bytes
            (if (ucast (drop_bit 8 (ep0_buf_rx_at cfg s 1)) :: uint8_t) = USB_DT_CONFIGURATION
             then of_nat (USB_DESC_SIZE cfg) else 0)
            (map (desc_mem cfg) [desc..<desc + total])) =
        fixup_bytes
            (if (ucast (drop_bit 8 (ep0_buf_rx_at cfg s 1)) :: uint8_t) = USB_DT_CONFIGURATION
             then of_nat (USB_DESC_SIZE cfg) else 0)
            (map (desc_mem cfg) [desc..<desc + total])"
    using c by simp
  with full in_stage_prefix [OF req dsc len, of k] show ?thesis
    unfolding total_def by simp
qed

theorem get_descriptor_in_stage_witness:
  "concat (in_stage test_config 1 (test_state (setup_ram 0x0680 0x0300 0 255))) =
     map (desc_mem test_config) [0x364..<0x3c8] \<and>
   list_all (\<lambda>p. length p \<le> USB_MAX_PACKET_SIZE)
     (in_stage test_config 1 (test_state (setup_ram 0x0680 0x0300 0 255)))"
proof -
  let ?s = "test_state (setup_ram 0x0680 0x0300 0 255)"
  have r: "ep0_buf_rx_at test_config ?s 0 = USB_DIR_IN OR push_bit 8 USB_REQ_GET_DESCRIPTOR"
    by (simp add: test_rx_words usb_consts)
  have d: "get_descriptor test_config (ucast (drop_bit 8 (ep0_buf_rx_at test_config ?s 1)))
             (ucast (ep0_buf_rx_at test_config ?s 1 AND 0xff)) = Some (0x364, 100)"
    unfolding test_rx_words by (simp add: test_get_descriptor)
  have l: "(0::int) \<le> 100" by simp
  have m: "(1::nat) = 0 \<or> int USB_MAX_PACKET_SIZE \<le> min (uint (ep0_buf_rx_at test_config ?s 3)) 100"
    unfolding test_rx_words by (simp add: USB_MAX_PACKET_SIZE_def)
  from get_descriptor_in_stage [OF r d l, of 1] m show ?thesis
    unfolding test_rx_words by (simp add: usb_consts fixup_bytes_def)
qed

text \<open>
  C1 as stated fails for the configuration descriptor: with 9 bytes at \<open>0x200\<close> and
  \<^verbatim>\<open>wLength\<close> 255, byte 2 of the payload is the size 9 and not the byte 2 of the source.
\<close>

theorem config_descriptor_fixup_counterexample:
  "concat (in_stage test_config 0 (test_state (setup_ram 0x0680 0x0200 0 255))) \<noteq>
     map (desc_mem test_config)
       [0x200..<0x200 + nat (min (uint (ep0_buf_rx_at test_config
          (test_state (setup_ram 0x0680 0x0200 0 255)) 3)) 9)] \<and>
   concat (in_stage test_config 0 (test_state (setup_ram 0x0680 0x0200 0 255))) ! 2 = 9 \<and>
   desc_mem test_config (0x200 + 2) = 2"
proof -
  let ?s = "test_state (setup_ram 0x0680 0x0200 0 255)"
  have r: "ep0_buf_rx_at test_config ?s 0 = USB_DIR_IN OR push_bit 8 USB_REQ_GET_DESCRIPTOR"
    by (simp add: test_rx_words usb_consts)
  have e: "ep0_rx test_config ?s = ep0_send_descriptor test_config 0x200 9 9
       (?s\<lparr>desc_ptr := 0, iface_next := of_nat (USB_IFACE_COUNT test_config)\<rparr>)"
    by (subst ep0_rx_get_descriptor [OF r])
       (simp_all add: test_rx_words test_get_descriptor usb_consts test_config_simps)
  have l: "(0::int) \<le> 9" by simp
  have p: "concat (in_stage test_config 0 ?s) =
      fixup_bytes 9 (map (desc_mem test_config) [0x200..<0x200 + 9])"
    unfolding in_stage_def e ep0_send_descriptor_payload [OF l]
    by (simp add: test_rx_words USB_MAX_PACKET_SIZE_def)
  have a: "concat (in_stage test_config 0 ?s) ! 2 = 9"
    unfolding p by (subst fixup_bytes_nth) simp_all
  have b: "map (desc_mem test_config) [0x200..<0x200 + 9] ! 2 = 2"
    by (simp add: test_config_simps)
  have c: "nat (min (uint (ep0_buf_rx_at test_config ?s 3)) 9) = 9"
    by (simp add: test_rx_words)
  have "concat (in_stage test_config 0 ?s) \<noteq> map (desc_mem test_config) [0x200..<0x200 + 9]"
  proof
    assume "concat (in_stage test_config 0 ?s) = map (desc_mem test_config) [0x200..<0x200 + 9]"
    with a b show False by simp
  qed
  with a show ?thesis unfolding c by (simp add: test_config_simps)
qed

end
